theory Spec2Isabelle
  imports Main "HOL-Library.AList" "HOL-Library.Char_ord" "HOL-Library.List_Lexorder"
    "HOL-Library.Multiset"
begin

section \<open>Python values used by the embedding\<close>

text \<open>
  The repository (rita) is Python. Strings are \<^typ>\<open>string\<close>, Python's unbounded
  integers are \<^typ>\<open>int\<close>, a value that may be \<open>None\<close> is an option, and every
  exception the code can raise is a value on the left of a sum.
\<close>

text \<open>A value loaded from YAML (floats do not occur in the modelled code paths).\<close>

datatype yaml =
    YNull
  | YBool bool
  | YInt int
  | YStr string
  | YList "yaml list"
  | YDict "(string \<times> yaml) list"

text \<open>
  A Python exception: whether it is an instance of \<open>AWSTokenExpiredError\<close>
  (storage.py), what \<open>str(e)\<close> gives, and \<open>e.__cause__\<close>.
\<close>

datatype py_exception =
  PyException (is_AWSTokenExpiredError: bool) (exc_str: string) (exc_cause: "py_exception option")

text \<open>\<open>str(n)\<close> for an integer, as the f-strings of the source format it.\<close>

definition digit_char :: "nat \<Rightarrow> char" where
  "digit_char d = ''0123456789'' ! d"

function str_nat :: "nat \<Rightarrow> string" where
  "str_nat n = (if n < 10 then [digit_char n] else str_nat (n div 10) @ [digit_char (n mod 10)])"
  by pat_completeness auto
termination
  by (relation "measure (\<lambda>n. n)") auto

declare str_nat.simps [simp del]

definition str_int :: "int \<Rightarrow> string" where
  "str_int i = (if i < 0 then CHR ''-'' # str_nat (nat (- i)) else str_nat (nat i))"

text \<open>\<open>sep.join(xs)\<close>.\<close>

fun join :: "string \<Rightarrow> string list \<Rightarrow> string" where
  "join sep [] = []"
| "join sep [x] = x"
| "join sep (x # y # ys) = x @ sep @ join sep (y # ys)"

section \<open>Descriptor model (models.py)\<close>

text \<open>The dataclass \<open>ArgoAppConfig\<close>; \<open>__post_init__\<close> is \<open>ArgoAppConfig_post_init\<close>.\<close>

record ArgoAppConfig =
  app_name :: string
  chart_repo :: string
  chart_name :: string
  chart_version :: string
  values_files :: "string list"
  app_namespace :: string
  release_name :: string
  is_local_chart :: bool
  source_file :: "string option"
  oci_chart_name :: "string option"
  values_object :: "yaml option"
  is_kustomize :: bool
  kustomize_path :: "string option"
  plain_manifests_path :: "string option"

definition ArgoAppConfig_post_init :: "ArgoAppConfig \<Rightarrow> ArgoAppConfig" where
  "ArgoAppConfig_post_init a =
     (if oci_chart_name a = None then a\<lparr>oci_chart_name := Some (chart_name a)\<rparr> else a)"

text \<open>
  The dataclass \<open>ArgoAppSetGeneratorElement\<close>. \<open>extra_fields\<close> is the generator
  element's own dictionary (\<open>ArgoGeneratorElement\<close>, a TypedDict of strings).
\<close>

record ArgoAppSetGeneratorElement =
  elem_name :: string
  elem_chart_name :: string
  elem_chart_version :: string
  elem_values_file :: string
  elem_namespace :: string
  elem_wave :: string
  elem_depends_on :: "string option"
  extra_fields :: "string \<rightharpoonup> string"

text \<open>The TypedDicts \<open>ArgoHelmConfig\<close>, \<open>ArgoSource\<close> and \<open>ArgoDestination\<close> of argocd.py
  (\<open>total=False\<close>: every key may be absent).\<close>

record ArgoHelmConfig =
  helm_releaseName :: "string option"
  helm_valueFiles :: "string list option"
  helm_valuesObject :: "yaml option"

record ArgoSource =
  src_repoURL :: "string option"
  src_chart :: "string option"
  src_targetRevision :: "string option"
  src_path :: "string option"
  src_ref :: "string option"
  src_helm :: "ArgoHelmConfig option"

record ArgoDestination =
  dest_server :: "string option"
  dest_namespace :: "string option"

record ArgoApplicationSetTemplateSpec =
  tspec_sources :: "ArgoSource list option"
  tspec_destination :: "ArgoDestination option"

text \<open>The dataclass \<open>ArgoAppSetConfig\<close>.\<close>

record ArgoAppSetConfig =
  appset_name :: string
  appset_namespace :: string
  appset_chart_repo :: string
  destination_server :: string
  destination_namespace :: string
  generator_elements :: "ArgoAppSetGeneratorElement list"
  template_spec :: ArgoApplicationSetTemplateSpec
  appset_source_file :: "string option"
  values_overlay :: "yaml option"

text \<open>
  \<open>ArgoAppSetConfig.to_app_configs\<close>. \<open>chart_path_resolver(origin).exists()\<close> reads the
  file system; it is the parameter \<open>chart_exists\<close>. \<open>if elem.values_file\<close> is Python
  truthiness of a string: it is not empty.
\<close>

definition elem_to_app_config ::
  "(string \<Rightarrow> bool) \<Rightarrow> ArgoAppSetConfig \<Rightarrow> ArgoAppSetGeneratorElement \<Rightarrow> ArgoAppConfig" where
  "elem_to_app_config chart_exists self elem =
     (let origin = (case extra_fields elem ''origin'' of Some v \<Rightarrow> v | None \<Rightarrow> elem_chart_name elem);
          is_local = chart_exists origin;
          values_files = (if elem_values_file elem \<noteq> []
             then [''kubernetes/'' @ origin @ ''/'' @ elem_values_file elem] else []);
          oci_chart_name = ''helm-charts/'' @ origin
      in ArgoAppConfig_post_init
        \<lparr>app_name = elem_name elem,
         chart_repo = appset_chart_repo self,
         chart_name = origin,
         chart_version = elem_chart_version elem,
         values_files = values_files,
         app_namespace = destination_namespace self,
         release_name = elem_name elem,
         is_local_chart = is_local,
         source_file = appset_source_file self,
         oci_chart_name = Some oci_chart_name,
         values_object = values_overlay self,
         is_kustomize = False,
         kustomize_path = None,
         plain_manifests_path = None\<rparr>)"

definition to_app_configs :: "(string \<Rightarrow> bool) \<Rightarrow> ArgoAppSetConfig \<Rightarrow> ArgoAppConfig list" where
  "to_app_configs chart_exists self = map (elem_to_app_config chart_exists self) (generator_elements self)"

section \<open>Descriptor parser (argocd.py)\<close>

text \<open>\<open>s.startswith(p)\<close> and \<open>s.replace(old, new)\<close> of Python strings.\<close>

definition startswith :: "string \<Rightarrow> string \<Rightarrow> bool" where
  "startswith s p = (take (length p) s = p)"

function py_replace :: "string \<Rightarrow> string \<Rightarrow> string \<Rightarrow> string" where
  "py_replace old new [] = (if old = [] then new else [])"
| "py_replace old new (c # cs) =
     (if old = [] then new @ concat (map (\<lambda>x. x # new) (c # cs))
      else if startswith (c # cs) old
        then new @ py_replace old new (drop (length old) (c # cs))
        else c # py_replace old new cs)"
  by pat_completeness auto
termination
  by (relation "measure (\<lambda>(old, new, s). length s)") (auto simp: neq_Nil_conv)

text \<open>\<open>_extract_values_files\<close>.\<close>

definition extract_values_files :: "ArgoHelmConfig \<Rightarrow> string list" where
  "extract_values_files helm_config =
     (let raw_value_files = (case helm_valueFiles helm_config of Some l \<Rightarrow> l | None \<Rightarrow> [])
      in map (\<lambda>vf. if startswith vf ''$values/'' then py_replace ''$values/'' [] vf else vf)
           raw_value_files)"

text \<open>\<open>_extract_local_chart_name\<close>: \<open>chart_name.split("/")[-1]\<close> is what follows the last
  slash.\<close>

definition extract_local_chart_name :: "string \<Rightarrow> string" where
  "extract_local_chart_name chart =
     (if CHR ''/'' \<in> set chart
      then rev (takeWhile (\<lambda>c. c \<noteq> CHR ''/'') (rev chart))
      else chart)"

text \<open>
  The TypedDicts of an Application document. \<open>d.get(k, {})\<close> of an absent dictionary is
  the dictionary with no key.
\<close>

record ArgoMetadata =
  meta_name :: "string option"
  meta_namespace :: "string option"

record ArgoApplicationSpec =
  spec_source :: "ArgoSource option"
  spec_sources :: "ArgoSource list option"
  spec_destination :: "ArgoDestination option"

record ArgoApplicationDocument =
  app_apiVersion :: "string option"
  app_kind :: "string option"
  app_metadata :: "ArgoMetadata option"
  app_spec :: "ArgoApplicationSpec option"

definition no_metadata :: ArgoMetadata where
  "no_metadata = \<lparr>meta_name = None, meta_namespace = None\<rparr>"

definition no_destination :: ArgoDestination where
  "no_destination = \<lparr>dest_server = None, dest_namespace = None\<rparr>"

definition no_helm_config :: ArgoHelmConfig where
  "no_helm_config = \<lparr>helm_releaseName = None, helm_valueFiles = None, helm_valuesObject = None\<rparr>"

definition no_application_spec :: ArgoApplicationSpec where
  "no_application_spec = \<lparr>spec_source = None, spec_sources = None, spec_destination = None\<rparr>"

text \<open>\<open>d.get(k, default)\<close> on a key that may be absent.\<close>

definition get_or :: "'a option \<Rightarrow> 'a \<Rightarrow> 'a" where
  "get_or v dflt = (case v of Some x \<Rightarrow> x | None \<Rightarrow> dflt)"

text \<open>Python truthiness of a source dictionary (it has a key) and of an optional string.\<close>

definition source_truthy :: "ArgoSource \<Rightarrow> bool" where
  "source_truthy src =
     (src_repoURL src \<noteq> None \<or> src_chart src \<noteq> None \<or> src_targetRevision src \<noteq> None \<or>
      src_path src \<noteq> None \<or> src_ref src \<noteq> None \<or> src_helm src \<noteq> None)"

definition str_truthy :: "string option \<Rightarrow> bool" where
  "str_truthy v = (case v of Some s \<Rightarrow> s \<noteq> [] | None \<Rightarrow> False)"

text \<open>
  What \<open>yaml.safe_load_all\<close> yields for a text, document by document: a mapping, a
  document that is not a (non-empty) mapping, or the YAML error raised at that point of
  the stream.
\<close>

datatype 'd yaml_document = Mapping 'd | NotMapping | LoadFails

text \<open>
  The loops of \<open>_find_application_document\<close> and \<open>_find_applicationset_document\<close>: the
  first mapping whose \<open>kind\<close> is the wanted one; \<open>None\<close> when the stream ends or fails first.
\<close>

fun find_document :: "('d \<Rightarrow> string option) \<Rightarrow> string \<Rightarrow> 'd yaml_document list \<Rightarrow> 'd option" where
  "find_document kind_of wanted [] = None"
| "find_document kind_of wanted (LoadFails # rest) = None"
| "find_document kind_of wanted (NotMapping # rest) = find_document kind_of wanted rest"
| "find_document kind_of wanted (Mapping doc # rest) =
     (if kind_of doc = Some wanted then Some doc else find_document kind_of wanted rest)"

text \<open>\<open>_find_application_document\<close>; \<open>None\<close> for the file stands for a file that cannot be
  read.\<close>

definition find_application_document ::
  "ArgoApplicationDocument yaml_document list option \<Rightarrow> ArgoApplicationDocument option" where
  "find_application_document file =
     (case file of None \<Rightarrow> None | Some docs \<Rightarrow> find_document app_kind ''Application'' docs)"

text \<open>\<open>_find_chart_source\<close>.\<close>

definition normalized_sources :: "ArgoApplicationSpec \<Rightarrow> ArgoSource list" where
  "normalized_sources spec =
     (let sources = get_or (spec_sources spec) [] in
      case spec_source spec of
        Some source \<Rightarrow> if source_truthy source \<and> sources = [] then [source] else sources
      | None \<Rightarrow> sources)"

definition find_chart_source :: "ArgoApplicationSpec \<Rightarrow> ArgoSource option" where
  "find_chart_source spec =
     (let sources = normalized_sources spec in
      if sources = [] then None
      else case find (\<lambda>src. src_chart src \<noteq> None) sources of
        Some src \<Rightarrow> Some src
      | None \<Rightarrow> find (\<lambda>src. src_path src \<noteq> None) sources)"

text \<open>
  The loop \<open>for src in sources\<close> of \<open>parse_argocd_application\<close> over the state
  \<open>(helm_source, kustomize_source_path, plain_manifests_path)\<close>.
  \<open>_is_kustomize_directory\<close> inspects the file system; it is a parameter.
\<close>

type_synonym source_state = "ArgoSource option \<times> string option \<times> string option"

definition classify_source :: "(string \<Rightarrow> bool) \<Rightarrow> source_state \<Rightarrow> ArgoSource \<Rightarrow> source_state" where
  "classify_source is_kustomize_directory st src =
     (case st of (helm_source, kustomize_source_path, plain_manifests) \<Rightarrow>
        let helm_source' =
              (if src_chart src \<noteq> None \<and> helm_source = None then Some src else helm_source)
        in if src_path src \<noteq> None \<and> \<not> str_truthy (src_ref src)
           then (case src_path src of
                   Some path \<Rightarrow>
                     if path \<noteq> []
                     then (if is_kustomize_directory path
                           then (helm_source', Some path, plain_manifests)
                           else (helm_source', kustomize_source_path, Some path))
                     else (helm_source', kustomize_source_path, plain_manifests)
                 | None \<Rightarrow> (helm_source', kustomize_source_path, plain_manifests))
           else (helm_source', kustomize_source_path, plain_manifests))"

definition classify_sources :: "(string \<Rightarrow> bool) \<Rightarrow> ArgoSource list \<Rightarrow> source_state" where
  "classify_sources is_kustomize_directory sources =
     foldl (classify_source is_kustomize_directory) (None, None, None) sources"

text \<open>\<open>parse_argocd_application\<close>.\<close>

definition parse_argocd_application ::
  "ArgoApplicationDocument yaml_document list option \<Rightarrow> string \<Rightarrow> (string \<Rightarrow> bool)
     \<Rightarrow> (string \<Rightarrow> bool) \<Rightarrow> ArgoAppConfig option" where
  "parse_argocd_application file app_path chart_path_exists is_kustomize_directory =
     (case find_application_document file of
        None \<Rightarrow> None
      | Some doc \<Rightarrow>
          let metadata = get_or (app_metadata doc) no_metadata;
              spec = get_or (app_spec doc) no_application_spec;
              name = get_or (meta_name metadata) [];
              destination = get_or (spec_destination spec) no_destination;
              namespace = get_or (dest_namespace destination) ''default''
          in case find_chart_source spec of
               None \<Rightarrow> None
             | Some chart_source \<Rightarrow>
                 (case classify_sources is_kustomize_directory (normalized_sources spec) of
                    (helm_source, kustomize_source_path, plain_manifests) \<Rightarrow>
                      if helm_source = None \<and> str_truthy kustomize_source_path
                      then Some (ArgoAppConfig_post_init
                        \<lparr>app_name = name, chart_repo = [], chart_name = [], chart_version = [],
                         values_files = [], app_namespace = namespace, release_name = name,
                         is_local_chart = False, source_file = Some app_path,
                         oci_chart_name = None, values_object = None, is_kustomize = True,
                         kustomize_path = kustomize_source_path,
                         plain_manifests_path = None\<rparr>)
                      else
                        let chart_repo' = (case helm_source of
                               Some h \<Rightarrow> get_or (src_repoURL h) [] | None \<Rightarrow> []);
                            chart_name' = (case helm_source of
                               Some h \<Rightarrow> get_or (src_chart h) [] | None \<Rightarrow> []);
                            chart_version' = (case helm_source of
                               Some h \<Rightarrow> get_or (src_targetRevision h) ''latest''
                             | None \<Rightarrow> ''latest'');
                            helm_config = (case helm_source of
                               Some h \<Rightarrow> get_or (src_helm h) no_helm_config
                             | None \<Rightarrow> no_helm_config);
                            release_name' = get_or (helm_releaseName helm_config) name;
                            values_files' = extract_values_files helm_config;
                            values_object' = helm_valuesObject helm_config;
                            local_chart_name = extract_local_chart_name chart_name';
                            is_local = (if chart_name' \<noteq> [] then chart_path_exists local_chart_name
                                        else False)
                        in Some (ArgoAppConfig_post_init
                          \<lparr>app_name = name, chart_repo = chart_repo',
                           chart_name = (if is_local then local_chart_name else chart_name'),
                           chart_version = chart_version', values_files = values_files',
                           app_namespace = namespace, release_name = release_name',
                           is_local_chart = is_local, source_file = Some app_path,
                           oci_chart_name = Some chart_name', values_object = values_object',
                           is_kustomize = str_truthy kustomize_source_path,
                           kustomize_path = kustomize_source_path,
                           plain_manifests_path = plain_manifests\<rparr>)))"

text \<open>The TypedDicts of an ApplicationSet document; a generator element is a dictionary
  of strings.\<close>

type_synonym ArgoGeneratorElement = "string \<rightharpoonup> string"

record ArgoListGenerator =
  list_elements :: "ArgoGeneratorElement list option"

record ArgoGenerator =
  gen_list :: "ArgoListGenerator option"

record ArgoApplicationSetTemplate =
  template_spec_of :: "ArgoApplicationSetTemplateSpec option"

record ArgoApplicationSetSpec =
  spec_generators :: "ArgoGenerator list option"
  spec_template :: "ArgoApplicationSetTemplate option"

record ArgoApplicationSetDocument =
  appset_apiVersion :: "string option"
  appset_kind :: "string option"
  appset_metadata :: "ArgoMetadata option"
  appset_spec :: "ArgoApplicationSetSpec option"

definition no_applicationset_spec :: ArgoApplicationSetSpec where
  "no_applicationset_spec = \<lparr>spec_generators = None, spec_template = None\<rparr>"

definition no_template :: ArgoApplicationSetTemplate where
  "no_template = \<lparr>template_spec_of = None\<rparr>"

definition no_template_spec :: ArgoApplicationSetTemplateSpec where
  "no_template_spec = \<lparr>tspec_sources = None, tspec_destination = None\<rparr>"

text \<open>\<open>_find_applicationset_document\<close>, on what \<open>yaml.safe_load_all(content)\<close> yields.\<close>

definition find_applicationset_document ::
  "ArgoApplicationSetDocument yaml_document list \<Rightarrow> ArgoApplicationSetDocument option" where
  "find_applicationset_document docs = find_document appset_kind ''ApplicationSet'' docs"

text \<open>The body of the loop over a list generator's elements.\<close>

definition make_generator_element ::
  "string \<Rightarrow> ArgoGeneratorElement \<Rightarrow> ArgoAppSetGeneratorElement" where
  "make_generator_element namespace elem =
     \<lparr>elem_name = get_or (elem ''name'') [],
      elem_chart_name = get_or (elem ''origin'') [],
      elem_chart_version = get_or (elem ''version'') [],
      elem_values_file = get_or (elem ''valuesFile'') [],
      elem_namespace = namespace,
      elem_wave = get_or (elem ''wave'') ''0'',
      elem_depends_on = elem ''dependsOn'',
      extra_fields = elem\<rparr>"

text \<open>The elements of the generators that have a \<open>list\<close> key, in document order.\<close>

definition list_generator_elements :: "ArgoGenerator list \<Rightarrow> ArgoGeneratorElement list" where
  "list_generator_elements generators =
     concat (map (\<lambda>gen. case gen_list gen of
                            Some list_gen \<Rightarrow> get_or (list_elements list_gen) []
                          | None \<Rightarrow> []) generators)"

text \<open>The loop \<open>for source in sources: if "chart" in source: ...; break\<close>, giving
  \<open>(chart_repo, values_overlay)\<close>.\<close>

fun template_chart_source :: "ArgoSource list \<Rightarrow> string \<times> yaml option" where
  "template_chart_source [] = ([], None)"
| "template_chart_source (source # rest) =
     (if src_chart source \<noteq> None
      then (get_or (src_repoURL source) [],
            helm_valuesObject (get_or (src_helm source) no_helm_config))
      else template_chart_source rest)"

text \<open>\<open>parse_applicationset_from_manifest\<close>.\<close>

definition parse_applicationset_from_manifest ::
  "ArgoApplicationSetDocument yaml_document list \<Rightarrow> string option \<Rightarrow> ArgoAppSetConfig option" where
  "parse_applicationset_from_manifest manifest_docs src_file =
     (case find_applicationset_document manifest_docs of
        None \<Rightarrow> None
      | Some doc \<Rightarrow>
          let metadata = get_or (appset_metadata doc) no_metadata;
              spec = get_or (appset_spec doc) no_applicationset_spec;
              name = get_or (meta_name metadata) [];
              namespace = get_or (meta_namespace metadata) ''argocd'';
              generators = get_or (spec_generators spec) [];
              elems = map (make_generator_element namespace) (list_generator_elements generators);
              template = get_or (spec_template spec) no_template;
              tspec = get_or (template_spec_of template) no_template_spec;
              destination = get_or (tspec_destination tspec) no_destination;
              server = get_or (dest_server destination) ''https://kubernetes.default.svc'';
              dest_ns = get_or (dest_namespace destination) ''default'';
              sources = get_or (tspec_sources tspec) []
          in Some
            \<lparr>appset_name = name,
             appset_namespace = namespace,
             appset_chart_repo = fst (template_chart_source sources),
             destination_server = server,
             destination_namespace = dest_ns,
             generator_elements = elems,
             template_spec = tspec,
             appset_source_file = src_file,
             values_overlay = snd (template_chart_source sources)\<rparr>)"

text \<open>What the spec calls the ApplicationSet's list-generator elements, its destination
  namespace and its values overlay, read off the document.\<close>

definition appset_elements :: "ArgoApplicationSetDocument \<Rightarrow> ArgoGeneratorElement list" where
  "appset_elements doc =
     list_generator_elements
       (get_or (spec_generators (get_or (appset_spec doc) no_applicationset_spec)) [])"

definition appset_template_spec :: "ArgoApplicationSetDocument \<Rightarrow> ArgoApplicationSetTemplateSpec" where
  "appset_template_spec doc =
     get_or (template_spec_of
       (get_or (spec_template (get_or (appset_spec doc) no_applicationset_spec)) no_template))
       no_template_spec"

definition appset_destination_namespace :: "ArgoApplicationSetDocument \<Rightarrow> string" where
  "appset_destination_namespace doc =
     get_or (dest_namespace
       (get_or (tspec_destination (appset_template_spec doc)) no_destination)) ''default''"

definition appset_values_overlay :: "ArgoApplicationSetDocument \<Rightarrow> yaml option" where
  "appset_values_overlay doc =
     (case find (\<lambda>source. src_chart source \<noteq> None)
             (get_or (tspec_sources (appset_template_spec doc)) []) of
        Some source \<Rightarrow> helm_valuesObject (get_or (src_helm source) no_helm_config)
      | None \<Rightarrow> None)"

text \<open>
  The outcome of the loop over the sources, said without the loop: a source is a candidate
  for the two path kinds when it has no \<open>ref\<close> and a non-empty \<open>path\<close>, and
  \<open>last_path\<close> reads the path of the last candidate of a list.
\<close>

definition path_candidate :: "ArgoSource \<Rightarrow> bool" where
  "path_candidate src = (\<not> str_truthy (src_ref src) \<and> str_truthy (src_path src))"

definition last_path :: "ArgoSource list \<Rightarrow> string option" where
  "last_path candidates = (if candidates = [] then None else src_path (last candidates))"

subsection \<open>Sample documents\<close>

text \<open>
  An Application with two chart-bearing sources followed by two path sources, and an
  ApplicationSet with one list generator of two elements, the second without a values file.
\<close>

definition demo_source :: "string option \<Rightarrow> string option \<Rightarrow> ArgoSource" where
  "demo_source chart path =
     \<lparr>src_repoURL = Some ''https://charts.example.com'', src_chart = chart,
      src_targetRevision = Some ''1.0.0'', src_path = path, src_ref = None, src_helm = None\<rparr>"

definition demo_application :: ArgoApplicationDocument where
  "demo_application =
     \<lparr>app_apiVersion = Some ''argoproj.io/v1alpha1'', app_kind = Some ''Application'',
      app_metadata = Some \<lparr>meta_name = Some ''demo'', meta_namespace = Some ''argocd''\<rparr>,
      app_spec = Some \<lparr>spec_source = None,
        spec_sources = Some [demo_source (Some ''chart-a'') None, demo_source (Some ''chart-b'') None,
                             demo_source None (Some ''overlays/first''),
                             demo_source None (Some ''overlays/second'')],
        spec_destination = None\<rparr>\<rparr>"

definition demo_applicationset :: ArgoApplicationSetDocument where
  "demo_applicationset =
     \<lparr>appset_apiVersion = Some ''argoproj.io/v1alpha1'', appset_kind = Some ''ApplicationSet'',
      appset_metadata = Some \<lparr>meta_name = Some ''features'', meta_namespace = None\<rparr>,
      appset_spec = Some
        \<lparr>spec_generators = Some
           [\<lparr>gen_list = Some \<lparr>list_elements = Some
               [[''name'' \<mapsto> ''api'', ''origin'' \<mapsto> ''backend'',
                 ''valuesFile'' \<mapsto> ''values-dev.yaml''],
                [''name'' \<mapsto> ''cache'', ''origin'' \<mapsto> ''redis'']]\<rparr>\<rparr>],
         spec_template = Some \<lparr>template_spec_of = Some
           \<lparr>tspec_sources = Some
              [\<lparr>src_repoURL = Some ''registry.example.com'', src_chart = Some ''{{origin}}'',
                src_targetRevision = None, src_path = None, src_ref = None,
                src_helm = Some \<lparr>helm_releaseName = None, helm_valueFiles = None,
                  helm_valuesObject = Some (YDict [(''env'', YStr ''dev'')])\<rparr>\<rparr>],
            tspec_destination = Some \<lparr>dest_server = None, dest_namespace = Some ''prod''\<rparr>\<rparr>\<rparr>\<rparr>\<rparr>"

section \<open>Recursive expansion engine (helm.py)\<close>

text \<open>
  What \<open>render_recursive\<close> calls and does not compute itself is a field of the
  environment: \<open>render_helm_chart_to_string\<close> (chart resolution and the Helm process; it
  returns \<open>(success, rendered_content, msg)\<close> or raises), \<open>_write_rendered_output\<close> and
  \<open>_write_combined_recursive_output\<close> (file writes; \<open>Some e\<close> when they raise),
  \<open>parse_argocd_resources_from_manifest\<close> (YAML loading of the rendered text),
  \<open>chart_path_resolver(...).exists()\<close>, and the order in which \<open>as_completed\<close> yields
  the submitted futures. A future is the pair of \<open>futures[future]\<close> (the child's name)
  and what \<open>future.result()\<close> returns or raises.
\<close>

type_synonym render_result = "bool \<times> string \<times> string list"

type_synonym child_result = "string \<times> bool \<times> string \<times> string list"

type_synonym future = "string \<times> (py_exception + child_result)"

record render_env =
  render_helm_chart_to_string :: "ArgoAppConfig \<Rightarrow> py_exception + (bool \<times> string \<times> string)"
  write_rendered_output :: "string \<Rightarrow> string list \<Rightarrow> py_exception option"
  parse_argocd_resources_from_manifest ::
    "string \<Rightarrow> string option \<Rightarrow> py_exception + (ArgoAppConfig list \<times> ArgoAppSetConfig list)"
  chart_exists :: "string \<Rightarrow> bool"
  as_completed :: "future list \<Rightarrow> future list"
  write_combined_recursive_output :: "string list \<Rightarrow> py_exception option"

text \<open>The accumulators of one level: \<open>all_rendered\<close> and \<open>child_errors\<close>.\<close>

type_synonym gathered = "string list \<times> string list"

text \<open>The body shared by both loops for a child that returned.\<close>

definition record_child :: "child_result \<Rightarrow> gathered \<Rightarrow> gathered" where
  "record_child r acc =
     (case r of (child_name, child_success, child_msg, grandchildren) \<Rightarrow>
        (case acc of (all_rendered, child_errors) \<Rightarrow>
           if child_success then (all_rendered @ grandchildren, child_errors)
           else (all_rendered, child_errors @ [child_name @ '': '' @ child_msg])))"

text \<open>
  \<open>raise c from None\<close> raises \<open>c\<close> with its \<open>__cause__\<close> set to \<open>None\<close>.
\<close>

definition raise_from_None :: "py_exception \<Rightarrow> py_exception" where
  "raise_from_None c = PyException (is_AWSTokenExpiredError c) (exc_str c) None"

text \<open>
  The loop over \<open>as_completed(futures)\<close>: an \<open>AWSTokenExpiredError\<close> is raised again
  as it is (\<open>raise\<close>), the \<open>__cause__\<close> of an exception that has an
  \<open>AWSTokenExpiredError\<close> as its cause is raised \<open>from None\<close>; any other exception
  becomes an entry of \<open>child_errors\<close> under \<open>futures[future]\<close>.
\<close>

fun gather_pool :: "future list \<Rightarrow> gathered \<Rightarrow> py_exception + gathered" where
  "gather_pool [] acc = Inr acc"
| "gather_pool ((fname, Inr r) # fs) acc = gather_pool fs (record_child r acc)"
| "gather_pool ((fname, Inl e) # fs) acc =
     (if is_AWSTokenExpiredError e then Inl e
      else case exc_cause e of
        Some c \<Rightarrow>
          if is_AWSTokenExpiredError c then Inl (raise_from_None c)
          else gather_pool fs (fst acc, snd acc @ [fname @ '': '' @ exc_str e])
      | None \<Rightarrow> gather_pool fs (fst acc, snd acc @ [fname @ '': '' @ exc_str e]))"

text \<open>The sequential loop: nothing is caught, so a child that raises ends the loop.\<close>

fun gather_sequential :: "future list \<Rightarrow> gathered \<Rightarrow> py_exception + gathered" where
  "gather_sequential [] acc = Inr acc"
| "gather_sequential ((fname, Inr r) # fs) acc = gather_sequential fs (record_child r acc)"
| "gather_sequential ((fname, Inl e) # fs) acc = Inl e"

text \<open>\<open>ThreadPoolExecutor(max_workers=n)\<close> raises \<open>ValueError\<close> unless \<open>n > 0\<close>.\<close>

definition pool_ValueError :: py_exception where
  "pool_ValueError = PyException False ''max_workers must be greater than 0'' None"

text \<open>The message of a level that has children.\<close>

definition level_message :: "string list \<Rightarrow> string list \<Rightarrow> string" where
  "level_message all_rendered child_errors =
     ''Rendered with '' @ str_int (int (length all_rendered) - 1) @ '' nested resources''
       @ (if child_errors \<noteq> [] then '' (errors: '' @ join ''; '' child_errors @ '')'' else [])"

text \<open>
  The block \<open>if all_child_apps: ...\<close> of \<open>render_recursive\<close>, given the outcome of every
  child task in submission order: the pool when \<open>parallel\<close> holds and there is more than
  one child, the sequential loop otherwise, then \<open>_write_combined_recursive_output\<close>.
\<close>

definition gather_children ::
  "render_env \<Rightarrow> ArgoAppConfig \<Rightarrow> string list \<Rightarrow> bool \<Rightarrow> int \<Rightarrow> future list
     \<Rightarrow> py_exception + gathered" where
  "gather_children env app output_dir parallel max_workers futures =
     (if futures = [] then Inr ([app_name app], [])
      else case
        (if parallel \<and> length futures > 1
         then (if max_workers \<le> 0 then Inl pool_ValueError
               else gather_pool (as_completed env futures) ([app_name app], []))
         else gather_sequential futures ([app_name app], []))
       of Inl e \<Rightarrow> Inl e
        | Inr acc \<Rightarrow>
            (case write_combined_recursive_output env output_dir of
               Some e \<Rightarrow> Inl e
             | None \<Rightarrow> Inr acc))"

text \<open>The two final \<open>return\<close> statements of \<open>render_recursive\<close>.\<close>

definition level_result :: "string \<Rightarrow> nat \<Rightarrow> gathered \<Rightarrow> render_result" where
  "level_result msg total_children acc =
     (if total_children > 0 then (True, level_message (fst acc) (snd acc), fst acc)
      else (True, msg, fst acc))"

text \<open>
  \<open>render_recursive\<close>, with \<open>_render_child_app\<close> inlined: the child is rendered into
  \<open>output_dir / child_app.name\<close> at \<open>current_depth + 1\<close>, and since
  \<open>_render_child_app\<close> passes neither \<open>parallel\<close> nor \<open>max_workers\<close>, with their
  defaults \<open>True\<close> and \<open>4\<close>.
\<close>

function render_recursive ::
  "render_env \<Rightarrow> ArgoAppConfig \<Rightarrow> string list \<Rightarrow> int \<Rightarrow> int \<Rightarrow> bool \<Rightarrow> int
     \<Rightarrow> py_exception + render_result" where
  "render_recursive env app output_dir max_depth current_depth parallel max_workers =
     (if current_depth \<ge> max_depth
      then Inr (True, ''Max recursion depth ('' @ str_int max_depth @ '') reached'', [])
      else case render_helm_chart_to_string env app of
        Inl e \<Rightarrow> Inl e
      | Inr (success, rendered_content, msg) \<Rightarrow>
          if \<not> success then Inr (False, msg, [])
          else (case write_rendered_output env rendered_content output_dir of
            Some e \<Rightarrow> Inl e
          | None \<Rightarrow>
            (case parse_argocd_resources_from_manifest env rendered_content (source_file app) of
              Inl e \<Rightarrow> Inl e
            | Inr (child_apps, child_appsets) \<Rightarrow>
                let all_child_apps =
                      child_apps @ concat (map (to_app_configs (chart_exists env)) child_appsets);
                    futures = map (\<lambda>child_app.
                      (app_name child_app,
                       case render_recursive env child_app (output_dir @ [app_name child_app])
                              max_depth (current_depth + 1) True 4 of
                         Inl e \<Rightarrow> Inl e
                       | Inr (success, msg, grandchildren) \<Rightarrow>
                           Inr (app_name child_app, success, msg, grandchildren)))
                      all_child_apps
                in case gather_children env app output_dir parallel max_workers futures of
                     Inl e \<Rightarrow> Inl e
                   | Inr acc \<Rightarrow> Inr (level_result msg (length all_child_apps) acc))))"
  by pat_completeness auto
termination
  by (relation "measure (\<lambda>(env, app, output_dir, max_depth, current_depth, parallel, max_workers).
        nat (max_depth - current_depth))") auto

declare render_recursive.simps [simp del]

text \<open>
  \<open>_render_child_app\<close>: what one submitted task (or one iteration of the sequential
  loop) returns or raises, and the dictionary \<open>futures\<close> of a level in submission order.
\<close>

definition render_child_app ::
  "render_env \<Rightarrow> ArgoAppConfig \<Rightarrow> string list \<Rightarrow> int \<Rightarrow> int \<Rightarrow> py_exception + child_result" where
  "render_child_app env child_app output_dir max_depth current_depth =
     (case render_recursive env child_app (output_dir @ [app_name child_app])
             max_depth (current_depth + 1) True 4 of
        Inl e \<Rightarrow> Inl e
      | Inr (success, msg, grandchildren) \<Rightarrow> Inr (app_name child_app, success, msg, grandchildren))"

definition child_futures ::
  "render_env \<Rightarrow> ArgoAppConfig list \<Rightarrow> string list \<Rightarrow> int \<Rightarrow> int \<Rightarrow> future list" where
  "child_futures env all_child_apps output_dir max_depth current_depth =
     map (\<lambda>child_app. (app_name child_app,
            render_child_app env child_app output_dir max_depth current_depth)) all_child_apps"

text \<open>
  The \<open>AWSTokenExpiredError\<close> a task's outcome carries through the pool, if any: the
  raised exception itself, or its \<open>__cause__\<close> raised \<open>from None\<close>.
\<close>

definition token_expiry_of :: "py_exception + child_result \<Rightarrow> py_exception option" where
  "token_expiry_of r =
     (case r of
        Inr _ \<Rightarrow> None
      | Inl e \<Rightarrow>
          if is_AWSTokenExpiredError e then Some e
          else (case exc_cause e of
                  Some c \<Rightarrow> if is_AWSTokenExpiredError c then Some (raise_from_None c) else None
                | None \<Rightarrow> None))"

text \<open>What one finished task adds to \<open>child_errors\<close> and to \<open>all_rendered\<close>.\<close>

fun error_entry :: "future \<Rightarrow> string list" where
  "error_entry (fname, Inl e) = [fname @ '': '' @ exc_str e]"
| "error_entry (fname, Inr (child_name, child_success, child_msg, grandchildren)) =
     (if child_success then [] else [child_name @ '': '' @ child_msg])"

fun rendered_of :: "future \<Rightarrow> string list" where
  "rendered_of (fname, Inl e) = []"
| "rendered_of (fname, Inr (child_name, child_success, child_msg, grandchildren)) =
     (if child_success then grandchildren else [])"

subsection \<open>A small app-of-apps tree\<close>

text \<open>
  An environment for concrete runs: the application \<open>root\<close> renders to a manifest that
  holds the child applications named in it (one per character after \<open>root:\<close>); a child
  named \<open>a\<close> renders, \<open>b\<close> returns a render failure, \<open>x\<close> raises a \<open>RuntimeError\<close>, \<open>t\<close>
  raises \<open>AWSTokenExpiredError\<close> (raised, as in \<open>storage.py\<close>, from the error of the
  storage client), \<open>w\<close> raises an exception whose cause is that one.
\<close>

definition demo_app :: "string \<Rightarrow> ArgoAppConfig" where
  "demo_app n =
     \<lparr>app_name = n, chart_repo = ''oci://registry'', chart_name = n, chart_version = ''1.0.0'',
      values_files = [], app_namespace = ''default'', release_name = n, is_local_chart = False,
      source_file = None, oci_chart_name = Some n, values_object = None, is_kustomize = False,
      kustomize_path = None, plain_manifests_path = None\<rparr>"

definition token_expired :: py_exception where
  "token_expired =
     PyException True ''AWS SSO token has expired. Run: aws sso login''
       (Some (PyException False ''Token has expired and refresh failed'' None))"

definition demo_render :: "ArgoAppConfig \<Rightarrow> py_exception + (bool \<times> string \<times> string)" where
  "demo_render a =
     (if app_name a = ''b'' then Inr (False, [], ''Helm template failed: boom'')
      else if app_name a = ''x'' then Inl (PyException False ''disk full'' None)
      else if app_name a = ''t'' then Inl token_expired
      else if app_name a = ''w'' then Inl (PyException False ''cache failed'' (Some token_expired))
      else Inr (True, app_name a, ''Chart pulled from OCI''))"

definition demo_parse ::
  "string \<Rightarrow> string option \<Rightarrow> py_exception + (ArgoAppConfig list \<times> ArgoAppSetConfig list)" where
  "demo_parse content src =
     (if take 5 content = ''root:'' then Inr (map (\<lambda>c. demo_app [c]) (drop 5 content), [])
      else Inr ([], []))"

definition demo_env :: render_env where
  "demo_env =
     \<lparr>render_helm_chart_to_string = demo_render,
      write_rendered_output = (\<lambda>content dir. None),
      parse_argocd_resources_from_manifest = demo_parse,
      chart_exists = (\<lambda>n. False),
      as_completed = rev,
      write_combined_recursive_output = (\<lambda>dir. None)\<rparr>"

section \<open>Diff engine (commands/render.py)\<close>

text \<open>
  \<open>_diff_manifests\<close> calls three things it does not compute itself, which are fields of
  the environment: \<open>yaml.safe_load\<close> (it returns the loaded value or raises), the built-in
  \<open>hash\<close> of a string, and \<open>difflib.unified_diff\<close>, whose arguments are the two lists of
  lines, \<open>fromfile\<close>, \<open>tofile\<close> and the number \<open>n\<close> of context lines. \<open>py_repr\<close> is what an
  f-string prints for a list or a mapping.
\<close>

datatype diff_error = YAMLError | AttributeError | OtherError string

record diff_env =
  yaml_safe_load :: "string \<Rightarrow> diff_error + yaml"
  py_hash :: "string \<Rightarrow> int"
  py_repr :: "yaml \<Rightarrow> string"
  unified_diff :: "string list \<Rightarrow> string list \<Rightarrow> string \<Rightarrow> string \<Rightarrow> nat \<Rightarrow> string list"

text \<open>
  \<open>s.strip()\<close> and \<open>s.rstrip()\<close>: the characters below are those of the first 256 code
  points for which \<open>str.isspace\<close> holds.
\<close>

definition py_isspace :: "char \<Rightarrow> bool" where
  "py_isspace c = (c \<in> set [CHR 0x09, CHR 0x0A, CHR 0x0B, CHR 0x0C, CHR 0x0D, CHR 0x1C, CHR 0x1D,
                            CHR 0x1E, CHR 0x1F, CHR 0x20, CHR 0x85, CHR 0xA0])"

definition py_rstrip :: "string \<Rightarrow> string" where
  "py_rstrip s = rev (dropWhile py_isspace (rev s))"

definition py_strip :: "string \<Rightarrow> string" where
  "py_strip s = py_rstrip (dropWhile py_isspace s)"

text \<open>\<open>s.split(sep)\<close> for a non-empty separator: \<open>cur\<close> is the piece being read.\<close>

function split_from :: "string \<Rightarrow> string \<Rightarrow> string \<Rightarrow> string list" where
  "split_from sep cur [] = [cur]"
| "split_from sep cur (c # cs) =
     (if sep \<noteq> [] \<and> startswith (c # cs) sep
      then cur # split_from sep [] (drop (length sep) (c # cs))
      else split_from sep (cur @ [c]) cs)"
  by pat_completeness auto
termination
  by (relation "measure (\<lambda>(sep, cur, s). length s)") (auto simp: neq_Nil_conv)

definition py_split :: "string \<Rightarrow> string \<Rightarrow> string list" where
  "py_split s sep = split_from sep [] s"

text \<open>
  \<open>s.splitlines(keepends=True)\<close>: a line ends at a line boundary, which it keeps; \<open>\r\n\<close>
  is one boundary.
\<close>

definition is_linebreak :: "char \<Rightarrow> bool" where
  "is_linebreak c = (c \<in> set [CHR 0x0A, CHR 0x0B, CHR 0x0C, CHR 0x0D, CHR 0x1C, CHR 0x1D,
                              CHR 0x1E, CHR 0x85])"

fun splitlines_from :: "string \<Rightarrow> string \<Rightarrow> string list" where
  "splitlines_from cur [] = (if cur = [] then [] else [cur])"
| "splitlines_from cur [c] = [cur @ [c]]"
| "splitlines_from cur (c # d # cs) =
     (if c = CHR 0x0D \<and> d = CHR 0x0A then (cur @ [c, d]) # splitlines_from [] cs
      else if is_linebreak c then (cur @ [c]) # splitlines_from [] (d # cs)
      else splitlines_from (cur @ [c]) (d # cs))"

definition splitlines :: "string \<Rightarrow> string list" where
  "splitlines s = splitlines_from [] s"

text \<open>The slice \<open>xs[:n]\<close>, also for a negative \<open>n\<close>.\<close>

definition py_take :: "int \<Rightarrow> 'a list \<Rightarrow> 'a list" where
  "py_take n xs = (if 0 \<le> n then take (nat n) xs else take (nat (int (length xs) + n)) xs)"

text \<open>Truthiness of a loaded value, and what an f-string prints for it.\<close>

definition py_truthy :: "yaml \<Rightarrow> bool" where
  "py_truthy v = (case v of YNull \<Rightarrow> False | YBool b \<Rightarrow> b | YInt i \<Rightarrow> i \<noteq> 0
                  | YStr s \<Rightarrow> s \<noteq> [] | YList xs \<Rightarrow> xs \<noteq> [] | YDict kvs \<Rightarrow> kvs \<noteq> [])"

definition py_str :: "diff_env \<Rightarrow> yaml \<Rightarrow> string" where
  "py_str env v = (case v of YNull \<Rightarrow> ''None'' | YBool b \<Rightarrow> (if b then ''True'' else ''False'')
                   | YInt i \<Rightarrow> str_int i | YStr s \<Rightarrow> s | _ \<Rightarrow> py_repr env v)"

text \<open>\<open>d.get(k, default)\<close> on a loaded mapping.\<close>

definition dict_get :: "(string \<times> yaml) list \<Rightarrow> string \<Rightarrow> yaml \<Rightarrow> yaml" where
  "dict_get d k dflt = (case map_of d k of Some v \<Rightarrow> v | None \<Rightarrow> dflt)"

text \<open>
  \<open>_get_manifest_name\<close>: \<open>metadata.get\<close> raises \<open>AttributeError\<close> when the value under
  \<open>metadata\<close> is not a mapping.
\<close>

definition get_manifest_name :: "diff_env \<Rightarrow> (string \<times> yaml) list \<Rightarrow> diff_error + string" where
  "get_manifest_name env doc =
     (let kind = dict_get doc ''kind'' (YStr ''Unknown'');
          metadata = dict_get doc ''metadata'' (YDict [])
      in case metadata of
           YDict m \<Rightarrow>
             (let name = dict_get m ''name'' (YStr ''unnamed'');
                  namespace = dict_get m ''namespace'' (YStr '''')
              in if py_truthy namespace
                 then Inr (py_str env kind @ ''/'' @ py_str env namespace @ ''/'' @ py_str env name)
                 else Inr (py_str env kind @ ''/'' @ py_str env name))
         | _ \<Rightarrow> Inl AttributeError)"

text \<open>
  \<open>parse_docs\<close>. The dictionary \<open>result\<close> is an association list in insertion order;
  \<open>result[identity] = (raw, doc)\<close> is \<open>AList.update\<close>, which overwrites the value of a key
  that is present. \<open>load_entry\<close> is the body of the \<open>try\<close>, \<open>doc_entry\<close> one iteration:
  \<open>None\<close> when the document is skipped, the key and the value stored otherwise. Only
  \<open>yaml.YAMLError\<close> is caught.
\<close>

type_synonym doc_table = "(string \<times> string \<times> yaml) list"

definition load_entry :: "diff_env \<Rightarrow> string \<Rightarrow> diff_error + (string \<times> string \<times> yaml) option" where
  "load_entry env raw =
     (case yaml_safe_load env raw of
        Inl e \<Rightarrow> Inl e
      | Inr doc \<Rightarrow>
          (case doc of
             YDict kvs \<Rightarrow>
               (if kvs \<noteq> []
                then (case get_manifest_name env kvs of
                        Inl e \<Rightarrow> Inl e
                      | Inr identity \<Rightarrow> Inr (Some (identity, raw, doc)))
                else Inr None)
           | _ \<Rightarrow> Inr None))"

definition doc_entry :: "diff_env \<Rightarrow> string \<Rightarrow> diff_error + (string \<times> string \<times> yaml) option" where
  "doc_entry env raw0 =
     (let raw = py_strip raw0
      in if raw = [] then Inr None
         else (case load_entry env raw of
                 Inl YAMLError \<Rightarrow>
                   Inr (Some (''unparseable-'' @ str_int (py_hash env raw), raw, YDict []))
               | Inl e \<Rightarrow> Inl e
               | Inr entry \<Rightarrow> Inr entry))"

fun parse_docs_loop :: "diff_env \<Rightarrow> doc_table \<Rightarrow> string list \<Rightarrow> diff_error + doc_table" where
  "parse_docs_loop env result [] = Inr result"
| "parse_docs_loop env result (raw # docs_raw) =
     (case doc_entry env raw of
        Inl e \<Rightarrow> Inl e
      | Inr None \<Rightarrow> parse_docs_loop env result docs_raw
      | Inr (Some (identity, v)) \<Rightarrow> parse_docs_loop env (AList.update identity v result) docs_raw)"

definition parse_docs :: "diff_env \<Rightarrow> string list \<Rightarrow> diff_error + doc_table" where
  "parse_docs env docs_raw = parse_docs_loop env [] docs_raw"

text \<open>\<open>docs.get(identity, ("", {}))[0]\<close>.\<close>

definition table_raw :: "doc_table \<Rightarrow> string \<Rightarrow> string" where
  "table_raw docs identity =
     fst (case map_of docs identity of Some v \<Rightarrow> v | None \<Rightarrow> ('''', YDict []))"

text \<open>
  The body of the loop over the sorted identities: \<open>None\<close> when the iteration ends in
  \<open>continue\<close>, the list \<open>diff_lines\<close> otherwise.
\<close>

definition diff_block :: "diff_env \<Rightarrow> int \<Rightarrow> string \<Rightarrow> string \<Rightarrow> string \<Rightarrow> string list option" where
  "diff_block env max_lines_per_manifest identity baseline_raw new_raw =
     (if baseline_raw = new_raw then None
      else
        let baseline_lines = (if baseline_raw \<noteq> [] then splitlines baseline_raw else []);
            new_lines = (if new_raw \<noteq> [] then splitlines new_raw else [])
        in if baseline_raw = []
           then Some ([''+++ NEW: '' @ identity @ ''\<newline>'']
                  @ map (\<lambda>line. ''+'' @ py_rstrip line @ ''\<newline>'')
                      (py_take max_lines_per_manifest new_lines)
                  @ (if int (length new_lines) > max_lines_per_manifest
                     then [''... (''
                             @ str_int (int (length new_lines) - max_lines_per_manifest)
                             @ '' more lines)\<newline>'']
                     else []))
           else if new_raw = []
           then Some ([''--- REMOVED: '' @ identity @ ''\<newline>'']
                  @ map (\<lambda>line. ''-'' @ py_rstrip line @ ''\<newline>'')
                      (py_take max_lines_per_manifest baseline_lines)
                  @ (if int (length baseline_lines) > max_lines_per_manifest
                     then [''... (''
                             @ str_int (int (length baseline_lines) - max_lines_per_manifest)
                             @ '' more lines)\<newline>'']
                     else []))
           else
             let diff = unified_diff env baseline_lines new_lines
                          (''baseline/'' @ identity) (''current/'' @ identity) 150
             in if diff \<noteq> []
                then Some (if int (length diff) > max_lines_per_manifest
                           then py_take max_lines_per_manifest diff
                                  @ [''... (truncated, showing first ''
                                       @ str_int max_lines_per_manifest @ '' lines)\<newline>'']
                           else diff)
                else None)"

fun diff_loop :: "diff_env \<Rightarrow> int \<Rightarrow> doc_table \<Rightarrow> doc_table \<Rightarrow> string list \<Rightarrow> string list
                    \<Rightarrow> string list" where
  "diff_loop env max_lines baseline_docs new_docs diffs [] = diffs"
| "diff_loop env max_lines baseline_docs new_docs diffs (identity # identities) =
     (case diff_block env max_lines identity (table_raw baseline_docs identity)
             (table_raw new_docs identity) of
        None \<Rightarrow> diff_loop env max_lines baseline_docs new_docs diffs identities
      | Some diff_lines \<Rightarrow>
          diff_loop env max_lines baseline_docs new_docs (diffs @ [concat diff_lines]) identities)"

text \<open>
  \<open>_diff_manifests\<close>: \<open>diff_tables\<close> is the part after both streams are parsed. The set
  \<open>all_identities\<close> has no order of its own; \<open>sorted\<close> gives it one.
\<close>

definition diff_tables :: "diff_env \<Rightarrow> int \<Rightarrow> doc_table \<Rightarrow> doc_table \<Rightarrow> bool \<times> string" where
  "diff_tables env max_lines_per_manifest baseline_docs new_docs =
     (let all_identities = remdups (map fst baseline_docs @ map fst new_docs);
          diffs = diff_loop env max_lines_per_manifest baseline_docs new_docs []
                    (sort all_identities)
      in if diffs = [] then (False, '''') else (True, join ''\<newline>'' diffs))"

definition diff_manifests :: "diff_env \<Rightarrow> string \<Rightarrow> string \<Rightarrow> int \<Rightarrow> diff_error + bool \<times> string" where
  "diff_manifests env baseline_content new_content max_lines_per_manifest =
     (case parse_docs env (py_split baseline_content ''\<newline>---\<newline>'') of
        Inl e \<Rightarrow> Inl e
      | Inr baseline_docs \<Rightarrow>
          (case parse_docs env (py_split new_content ''\<newline>---\<newline>'') of
             Inl e \<Rightarrow> Inl e
           | Inr new_docs \<Rightarrow>
               Inr (diff_tables env max_lines_per_manifest baseline_docs new_docs)))"

subsection \<open>What the diff is expected to be\<close>

text \<open>
  A document of a stream is well formed when loading it raises nothing but
  \<open>yaml.YAMLError\<close> and, if it is a mapping, what it has under \<open>metadata\<close> is a mapping.
\<close>

definition well_formed_document :: "diff_env \<Rightarrow> string \<Rightarrow> bool" where
  "well_formed_document env raw0 =
     (if py_strip raw0 = [] then True
      else (case yaml_safe_load env (py_strip raw0) of
              Inl e \<Rightarrow> e = YAMLError
            | Inr doc \<Rightarrow>
                (case doc of
                   YDict kvs \<Rightarrow>
                     (case dict_get kvs ''metadata'' (YDict []) of YDict m \<Rightarrow> True | _ \<Rightarrow> False)
                 | _ \<Rightarrow> True)))"

definition well_formed_stream :: "diff_env \<Rightarrow> string \<Rightarrow> bool" where
  "well_formed_stream env content =
     list_all (well_formed_document env) (py_split content ''\<newline>---\<newline>'')"

text \<open>
  The documents of a stream that have an identity, in the order of the stream, each with
  its identity, its raw text and its loaded value; the identities of a stream; and the map
  from an identity to the raw text of the last document of the stream that has it.
\<close>

definition doc_entries :: "diff_env \<Rightarrow> string list \<Rightarrow> (string \<times> string \<times> yaml) list" where
  "doc_entries env docs_raw =
     concat (map (\<lambda>raw. case doc_entry env raw of Inr (Some entry) \<Rightarrow> [entry] | _ \<Rightarrow> [])
               docs_raw)"

definition stream_identities :: "diff_env \<Rightarrow> string \<Rightarrow> string list" where
  "stream_identities env content =
     map fst (doc_entries env (py_split content ''\<newline>---\<newline>''))"

definition stream_table :: "diff_env \<Rightarrow> string \<Rightarrow> string \<rightharpoonup> string" where
  "stream_table env content =
     map_option fst \<circ> map_of (rev (doc_entries env (py_split content ''\<newline>---\<newline>'')))"

definition raw_text :: "doc_table \<Rightarrow> string \<rightharpoonup> string" where
  "raw_text docs = map_option fst \<circ> map_of docs"

text \<open>
  The block of one identity, as a list of lines (empty when there is no block): an added or
  a removed resource is a title line with the identity, at most \<open>cap\<close> lines of the
  document behind a \<open>+\<close> or a \<open>-\<close>, and a note when the document has more lines; a changed
  resource is the unified diff with 150 lines of context, between \<open>baseline/identity\<close> and
  \<open>current/identity\<close>, cut after \<open>cap\<close> lines with a note.
\<close>

definition listing :: "string \<Rightarrow> string \<Rightarrow> nat \<Rightarrow> string \<Rightarrow> string list \<Rightarrow> string list" where
  "listing title mark cap identity lines =
     (title @ identity @ ''\<newline>'')
       # map (\<lambda>line. mark @ py_rstrip line @ ''\<newline>'') (take cap lines)
       @ (if cap < length lines
          then [''... ('' @ str_int (int (length lines - cap)) @ '' more lines)\<newline>'']
          else [])"

definition capped_diff :: "nat \<Rightarrow> string list \<Rightarrow> string list" where
  "capped_diff cap diff =
     (if cap < length diff
      then take cap diff
             @ [''... (truncated, showing first '' @ str_int (int cap) @ '' lines)\<newline>'']
      else diff)"

definition resource_block ::
  "diff_env \<Rightarrow> nat \<Rightarrow> (string \<rightharpoonup> string) \<Rightarrow> (string \<rightharpoonup> string) \<Rightarrow> string \<Rightarrow> string list" where
  "resource_block env cap baseline current identity =
     (case (baseline identity, current identity) of
        (None, None) \<Rightarrow> []
      | (None, Some new_raw) \<Rightarrow> listing ''+++ NEW: '' ''+'' cap identity (splitlines new_raw)
      | (Some baseline_raw, None) \<Rightarrow>
          listing ''--- REMOVED: '' ''-'' cap identity (splitlines baseline_raw)
      | (Some baseline_raw, Some new_raw) \<Rightarrow>
          (if baseline_raw = new_raw then []
           else capped_diff cap
                  (unified_diff env (splitlines baseline_raw) (splitlines new_raw)
                     (''baseline/'' @ identity) (''current/'' @ identity) 150)))"

text \<open>The blocks of a diff: those of the identities of both streams, in ascending order.\<close>

definition diff_blocks :: "diff_env \<Rightarrow> nat \<Rightarrow> string \<Rightarrow> string \<Rightarrow> string list list" where
  "diff_blocks env cap baseline_content new_content =
     filter (\<lambda>block. block \<noteq> [])
       (map (resource_block env cap (stream_table env baseline_content)
               (stream_table env new_content))
          (sort (remdups (stream_identities env baseline_content
                            @ stream_identities env new_content))))"

text \<open>Two outcomes of \<open>parse_docs\<close> agree: the same exception, or the same map.\<close>

definition same_tables :: "diff_error + doc_table \<Rightarrow> diff_error + doc_table \<Rightarrow> bool" where
  "same_tables a b =
     (case a of
        Inl e \<Rightarrow> (case b of Inl e' \<Rightarrow> e = e' | Inr t' \<Rightarrow> False)
      | Inr t \<Rightarrow> (case b of Inl e' \<Rightarrow> False | Inr t' \<Rightarrow> map_of t = map_of t'))"

subsection \<open>Sample streams\<close>

text \<open>
  An environment for concrete runs: the loader knows the four documents below and raises
  \<open>yaml.YAMLError\<close> on any other text, and \<open>unified_diff\<close> is what \<open>difflib\<close> gives for two
  documents of one line each. The baseline stream holds the Service \<open>web\<close> twice.
\<close>

definition demo_load :: "string \<Rightarrow> diff_error + yaml" where
  "demo_load raw =
     (if raw = ''metadata: 5'' then Inr (YDict [(''metadata'', YInt 5)])
      else if raw = ''{kind: Service, metadata: {name: web}, port: 80}''
        then Inr (YDict [(''kind'', YStr ''Service''),
                         (''metadata'', YDict [(''name'', YStr ''web'')]), (''port'', YInt 80)])
      else if raw = ''{kind: Service, metadata: {name: web}, port: 81}''
        then Inr (YDict [(''kind'', YStr ''Service''),
                         (''metadata'', YDict [(''name'', YStr ''web'')]), (''port'', YInt 81)])
      else if raw = ''{kind: Job, metadata: {name: init, namespace: ops}}''
        then Inr (YDict [(''kind'', YStr ''Job''),
                         (''metadata'', YDict [(''name'', YStr ''init''),
                                               (''namespace'', YStr ''ops'')])])
      else Inl YAMLError)"

definition demo_diff_env :: diff_env where
  "demo_diff_env =
     \<lparr>yaml_safe_load = demo_load, py_hash = (\<lambda>s. int (length s)), py_repr = (\<lambda>v. ''...''),
      unified_diff = (\<lambda>a b fromfile tofile n.
        if a = b then []
        else [''--- '' @ fromfile @ ''\<newline>'', ''+++ '' @ tofile @ ''\<newline>'',
              ''@@ -1 +1 @@\<newline>'']
               @ map (\<lambda>l. ''-'' @ l) a @ map (\<lambda>l. ''+'' @ l) b)\<rparr>"

definition demo_baseline :: string where
  "demo_baseline =
     ''{kind: Service, metadata: {name: web}, port: 81}\<newline>---\<newline>'' @
     ''{kind: Service, metadata: {name: web}, port: 80}\<newline>---\<newline>'' @
     ''{kind: Job, metadata: {name: init, namespace: ops}}\<newline>''"

definition demo_deduplicated :: string where
  "demo_deduplicated =
     ''{kind: Service, metadata: {name: web}, port: 80}\<newline>---\<newline>'' @
     ''{kind: Job, metadata: {name: init, namespace: ops}}\<newline>''"

definition demo_current :: string where
  "demo_current = ''{kind: Service, metadata: {name: web}, port: 81}''"

section \<open>Template variables (argocd.py)\<close>

text \<open>
  \<open>resolve_template_variables\<close> is two calls of \<open>re.sub\<close>. A pattern is modelled by its
  match at the start of a string: the text of group 1 and what follows the match, or
  \<open>None\<close>. \<open>\s*\<close> is followed in both patterns by a character that is not white space, so
  it takes all the white space there is; \<open>.\<close> is any character but the newline, and the lazy
  \<open>(.+?)\<close> takes one character and then as few more as let the rest of the pattern match.
\<close>

definition match_literal :: "string \<Rightarrow> string \<Rightarrow> string option" where
  "match_literal lit s = (if startswith s lit then Some (drop (length lit) s) else None)"

definition skip_space :: "string \<Rightarrow> string" where
  "skip_space s = dropWhile py_isspace s"

fun lazy_group :: "(string \<Rightarrow> string option) \<Rightarrow> string \<Rightarrow> string \<Rightarrow> (string \<times> string) option" where
  "lazy_group close g [] = (case close [] of Some rest \<Rightarrow> Some (g, rest) | None \<Rightarrow> None)"
| "lazy_group close g (c # cs) =
     (case close (c # cs) of
        Some rest \<Rightarrow> Some (g, rest)
      | None \<Rightarrow> if c = CHR 0x0A then None else lazy_group close (g @ [c]) cs)"

definition dot_plus_lazy :: "(string \<Rightarrow> string option) \<Rightarrow> string \<Rightarrow> (string \<times> string) option" where
  "dot_plus_lazy close s =
     (case s of
        [] \<Rightarrow> None
      | c # cs \<Rightarrow> if c = CHR 0x0A then None else lazy_group close [c] cs)"

text \<open>
  The pattern of the escaped idiom: an opening of two braces, a backquoted pair of opening
  braces and two closing braces, group 1, and the same with a backquoted pair of closing
  braces; white space is allowed around the backquoted pairs.
\<close>

definition match_escaped_open :: "string \<Rightarrow> string option" where
  "match_escaped_open s =
     (case match_literal ''{{'' s of
        None \<Rightarrow> None
      | Some s1 \<Rightarrow>
          (case match_literal ''`{{`'' (skip_space s1) of
             None \<Rightarrow> None
           | Some s2 \<Rightarrow> match_literal ''}}'' (skip_space s2)))"

definition match_escaped_close :: "string \<Rightarrow> string option" where
  "match_escaped_close s =
     (case match_literal ''{{'' s of
        None \<Rightarrow> None
      | Some s1 \<Rightarrow>
          (case match_literal ''`}}`'' (skip_space s1) of
             None \<Rightarrow> None
           | Some s2 \<Rightarrow> match_literal ''}}'' (skip_space s2)))"

definition match_escaped :: "string \<Rightarrow> (string \<times> string) option" where
  "match_escaped s =
     (case match_escaped_open s of
        None \<Rightarrow> None
      | Some r \<Rightarrow> dot_plus_lazy match_escaped_close r)"

text \<open>The pattern of a variable: two opening braces, group 1, two closing braces.\<close>

definition match_variable :: "string \<Rightarrow> (string \<times> string) option" where
  "match_variable s =
     (case match_literal ''{{'' s of
        None \<Rightarrow> None
      | Some r \<Rightarrow> dot_plus_lazy (match_literal ''}}'') r)"

text \<open>
  \<open>re.sub(pattern, repl, s)\<close>: the leftmost match is replaced and the scan goes on after
  it; \<open>repl\<close> is given group 1 and the whole match. Both patterns match five characters
  or more, so what follows a match is always shorter than the string.
\<close>

fun re_sub ::
  "(string \<Rightarrow> (string \<times> string) option) \<Rightarrow> (string \<Rightarrow> string \<Rightarrow> string) \<Rightarrow> string \<Rightarrow> string" where
  "re_sub m repl [] = []"
| "re_sub m repl (c # cs) =
     (case m (c # cs) of
        None \<Rightarrow> c # re_sub m repl cs
      | Some (g, rest) \<Rightarrow>
          if length rest < length (c # cs)
          then repl g (take (length (c # cs) - length rest) (c # cs)) @ re_sub m repl rest
          else c # re_sub m repl cs)"

declare re_sub.simps [simp del]









section \<open>Properties of the recursive expansion engine\<close>

subsection \<open>Helper lemmas\<close>

lemma str_nat_digit: "n < 10 \<Longrightarrow> str_nat n = [digit_char n]"
  by (simp add: str_nat.simps)

lemma render_recursive_level:
  assumes "current_depth < max_depth"
    and "render_helm_chart_to_string env app = Inr (True, rendered_content, msg)"
    and "write_rendered_output env rendered_content output_dir = None"
    and "parse_argocd_resources_from_manifest env rendered_content (source_file app)
           = Inr (child_apps, child_appsets)"
    and "all_child_apps = child_apps @ concat (map (to_app_configs (chart_exists env)) child_appsets)"
  shows "render_recursive env app output_dir max_depth current_depth parallel max_workers =
     (case gather_children env app output_dir parallel max_workers
             (child_futures env all_child_apps output_dir max_depth current_depth) of
        Inl e \<Rightarrow> Inl e
      | Inr acc \<Rightarrow> Inr (level_result msg (length all_child_apps) acc))"
proof -
  have "render_recursive env app output_dir max_depth current_depth parallel max_workers =
     (case gather_children env app output_dir parallel max_workers
             (map (\<lambda>child_app.
                (app_name child_app,
                 case render_recursive env child_app (output_dir @ [app_name child_app])
                        max_depth (current_depth + 1) True 4 of
                   Inl e \<Rightarrow> Inl e
                 | Inr (success, msg, grandchildren) \<Rightarrow>
                     Inr (app_name child_app, success, msg, grandchildren)))
              all_child_apps) of
        Inl e \<Rightarrow> Inl e
      | Inr acc \<Rightarrow> Inr (level_result msg (length all_child_apps) acc))"
    using assms(1-4) unfolding assms(5)
    by (subst render_recursive.simps) (simp only: Let_def not_le[symmetric] if_False
          sum.case prod.case option.case simp_thms)
  then show ?thesis
    by (simp only: child_futures_def render_child_app_def)
qed

lemma render_recursive_leaf:
  assumes "current_depth < max_depth"
    and "render_helm_chart_to_string env app = Inr (True, rendered_content, msg)"
    and "write_rendered_output env rendered_content output_dir = None"
    and "parse_argocd_resources_from_manifest env rendered_content (source_file app) = Inr ([], [])"
  shows "render_recursive env app output_dir max_depth current_depth parallel max_workers
           = Inr (True, msg, [app_name app])"
  using assms
  by (subst render_recursive.simps) (simp add: gather_children_def level_result_def)

lemma render_recursive_failed:
  assumes "current_depth < max_depth"
    and "render_helm_chart_to_string env app = Inr (False, rendered_content, msg)"
  shows "render_recursive env app output_dir max_depth current_depth parallel max_workers
           = Inr (False, msg, [])"
  using assms by (subst render_recursive.simps) simp

lemma render_recursive_raised:
  assumes "current_depth < max_depth"
    and "render_helm_chart_to_string env app = Inl e"
  shows "render_recursive env app output_dir max_depth current_depth parallel max_workers = Inl e"
  using assms by (subst render_recursive.simps) simp

lemma gather_pool_no_expiry:
  assumes "\<forall>f\<in>set fs. token_expiry_of (snd f) = None"
  shows "gather_pool fs acc
           = Inr (fst acc @ concat (map rendered_of fs), snd acc @ concat (map error_entry fs))"
  using assms
proof (induction fs acc rule: gather_pool.induct)
  case (1 acc)
  then show ?case by simp
next
  case (2 fname r fs acc)
  then show ?case
    by (cases r; cases acc) (simp add: record_child_def)
next
  case (3 fname e fs acc)
  then show ?case
    by (auto simp: token_expiry_of_def split: option.splits if_splits)
qed

lemma gather_pool_expiry:
  assumes "\<exists>f\<in>set fs. token_expiry_of (snd f) \<noteq> None"
  shows "\<exists>f\<in>set fs. \<exists>e. token_expiry_of (snd f) = Some e \<and> gather_pool fs acc = Inl e"
  using assms
proof (induction fs acc rule: gather_pool.induct)
  case (1 acc)
  then show ?case by simp
next
  case (2 fname r fs acc)
  then show ?case by (auto simp: token_expiry_of_def)
next
  case (3 fname e fs acc)
  then show ?case
    by (auto simp: token_expiry_of_def split: option.splits if_splits)
qed

lemma token_expiry_of_is_expired:
  "token_expiry_of r = Some e \<Longrightarrow> is_AWSTokenExpiredError e"
  by (auto simp: token_expiry_of_def raise_from_None_def
        split: sum.splits option.splits if_splits)


lemma mset_concat_map_perm:
  assumes "mset xs = mset ys"
  shows "mset (concat (map f xs)) = mset (concat (map f ys))"
proof -
  have "mset (concat (map f zs)) = sum_mset (image_mset (\<lambda>z. mset (f z)) (mset zs))" for zs
    by (induction zs) simp_all
  then show ?thesis using assms by simp
qed

lemma gather_pool_is_error_free:
  assumes "\<forall>f\<in>set fs. token_expiry_of (snd f) = None"
    and "mset fs' = mset fs"
  shows "\<exists>all_rendered child_errors.
           gather_pool fs' acc = Inr (all_rendered, child_errors) \<and>
           mset all_rendered = mset (fst acc) + mset (concat (map rendered_of fs)) \<and>
           mset child_errors = mset (snd acc) + mset (concat (map error_entry fs))"
proof -
  have "set fs' = set fs"
    using assms(2) by (rule mset_eq_setD)
  then have "\<forall>f\<in>set fs'. token_expiry_of (snd f) = None"
    using assms(1) by simp
  then have "gather_pool fs' acc
      = Inr (fst acc @ concat (map rendered_of fs'), snd acc @ concat (map error_entry fs'))"
    by (rule gather_pool_no_expiry)
  moreover have "mset (concat (map rendered_of fs')) = mset (concat (map rendered_of fs))"
    using assms(2) by (rule mset_concat_map_perm)
  moreover have "mset (concat (map error_entry fs')) = mset (concat (map error_entry fs))"
    using assms(2) by (rule mset_concat_map_perm)
  ultimately show ?thesis by simp
qed

lemma demo_child_a:
  "render_child_app demo_env (demo_app ''a'') dir 5 0
     = Inr (''a'', True, ''Chart pulled from OCI'', [''a''])"
  by (simp add: render_child_app_def demo_env_def demo_app_def demo_render_def demo_parse_def
        render_recursive_leaf [where rendered_content = "''a''"])

lemma demo_child_b:
  "render_child_app demo_env (demo_app ''b'') dir 5 0
     = Inr (''b'', False, ''Helm template failed: boom'', [])"
  by (simp add: render_child_app_def demo_env_def demo_app_def demo_render_def
        render_recursive_failed [where rendered_content = "[]"])

lemma demo_child_x:
  "render_child_app demo_env (demo_app ''x'') dir 5 0 = Inl (PyException False ''disk full'' None)"
  by (simp add: render_child_app_def demo_env_def demo_app_def demo_render_def
        render_recursive_raised)

lemma demo_child_t:
  "render_child_app demo_env (demo_app ''t'') dir 5 0 = Inl token_expired"
  by (simp add: render_child_app_def demo_env_def demo_app_def demo_render_def
        render_recursive_raised)

lemma demo_child_w:
  "render_child_app demo_env (demo_app ''w'') dir 5 0
     = Inl (PyException False ''cache failed'' (Some token_expired))"
  by (simp add: render_child_app_def demo_env_def demo_app_def demo_render_def
        render_recursive_raised)

lemmas demo_children = demo_child_a demo_child_b demo_child_x demo_child_t demo_child_w

lemma demo_app_name [simp]: "app_name (demo_app n) = n"
  by (simp add: demo_app_def)

lemma demo_env_fields:
  "as_completed demo_env = rev"
  "write_combined_recursive_output demo_env dir = None"
  by (simp_all add: demo_env_def)

lemma demo_root:
  "render_recursive demo_env (demo_app (''root:'' @ cs)) [] 5 0 parallel max_workers =
     (case gather_children demo_env (demo_app (''root:'' @ cs)) [] parallel max_workers
             (child_futures demo_env (map (\<lambda>c. demo_app [c]) cs) [] 5 0) of
        Inl e \<Rightarrow> Inl e
      | Inr acc \<Rightarrow> Inr (level_result ''Chart pulled from OCI'' (length cs) acc))"
proof -
  have "render_recursive demo_env (demo_app (''root:'' @ cs)) [] 5 0 parallel max_workers =
     (case gather_children demo_env (demo_app (''root:'' @ cs)) [] parallel max_workers
             (child_futures demo_env (map (\<lambda>c. demo_app [c]) cs) [] 5 0) of
        Inl e \<Rightarrow> Inl e
      | Inr acc \<Rightarrow> Inr (level_result ''Chart pulled from OCI''
                           (length (map (\<lambda>c. demo_app [c]) cs)) acc))"
    by (rule render_recursive_level [where rendered_content = "''root:'' @ cs"
          and child_apps = "map (\<lambda>c. demo_app [c]) cs" and child_appsets = "[]"])
       (simp_all add: demo_env_def demo_render_def demo_parse_def demo_app_def)
  then show ?thesis unfolding length_map .
qed

subsection \<open>Child failures at one level\<close>

text \<open>
  C1. A child's failure with a non-authentication error should not abort its siblings,
  and the operation should still return success with the failing child recorded as
  \<open>childName: message\<close>. The worker-pool loop does this for a child that raises, the
  sequential loop (taken when \<open>parallel\<close> is off, and also for a level with exactly one
  child) does not: the exception leaves \<open>render_recursive\<close>. In the tree below the child
  \<open>x\<close> raises a \<open>RuntimeError\<close>-like exception \<open>disk full\<close>; with \<open>x\<close> as the only child, or
  with \<open>parallel = False\<close> and the sibling \<open>a\<close>, the whole call raises it, while the same
  two children under the pool give success, \<open>a\<close> rendered and \<open>x: disk full\<close> reported.
\<close>

theorem render_recursive_sequential_child_exception:
  "render_recursive demo_env (demo_app ''root:x'') [] 5 0 True 4
     = Inl (PyException False ''disk full'' None) \<and>
   render_recursive demo_env (demo_app ''root:xa'') [] 5 0 False 4
     = Inl (PyException False ''disk full'' None) \<and>
   render_recursive demo_env (demo_app ''root:xa'') [] 5 0 True 4
     = Inr (True, ''Rendered with 1 nested resources (errors: x: disk full)'',
            [''root:xa'', ''a''])"
proof (intro conjI)
  show "render_recursive demo_env (demo_app ''root:x'') [] 5 0 True 4
     = Inl (PyException False ''disk full'' None)"
    using demo_root [of "''x''" True 4]
    by (simp add: child_futures_def demo_children gather_children_def)
  show "render_recursive demo_env (demo_app ''root:xa'') [] 5 0 False 4
     = Inl (PyException False ''disk full'' None)"
    using demo_root [of "''xa''" False 4]
    by (simp add: child_futures_def demo_children gather_children_def)
  show "render_recursive demo_env (demo_app ''root:xa'') [] 5 0 True 4
     = Inr (True, ''Rendered with 1 nested resources (errors: x: disk full)'',
            [''root:xa'', ''a''])"
    using demo_root [of "''xa''" True 4]
    by (simp add: child_futures_def demo_children gather_children_def demo_env_fields
         record_child_def level_result_def level_message_def str_int_def str_nat_digit
         digit_char_def)
qed

subsection \<open>The worker-pool boundary\<close>

lemma token_expiry_of_cases:
  assumes "token_expiry_of r = Some e'"
  shows "\<exists>e. r = Inl e \<and>
           (if is_AWSTokenExpiredError e then e' = e
            else \<exists>c. exc_cause e = Some c \<and> is_AWSTokenExpiredError c \<and>
                   e' = PyException True (exc_str c) None)"
  using assms
  by (auto simp: token_expiry_of_def raise_from_None_def
        split: sum.splits option.splits if_splits)

lemma join_contains:
  assumes "x \<in> set xs"
  shows "\<exists>before after. join sep xs = before @ x @ after"
  using assms
proof (induction sep xs rule: join.induct)
  case (1 sep)
  then show ?case by simp
next
  case (2 sep y)
  then have "join sep [y] = [] @ x @ []" by simp
  then show ?case by blast
next
  case (3 sep y z zs)
  show ?case
  proof (cases "x = y")
    case True
    then have "join sep (y # z # zs) = [] @ x @ (sep @ join sep (z # zs))" by simp
    then show ?thesis by blast
  next
    case False
    then have "x \<in> set (z # zs)" using 3 by simp
    then obtain before after where "join sep (z # zs) = before @ x @ after"
      using "3.IH" by blast
    then have "join sep (y # z # zs) = (y @ sep @ before) @ x @ after" by simp
    then show ?thesis by blast
  qed
qed

text \<open>
  C2. The worker pool is used at a level exactly when \<open>parallel\<close> holds and the level has
  more than one child (\<open>if parallel and len(all_child_apps) > 1\<close>); the child tasks are
  the calls of \<open>_render_child_app\<close> submitted to it, and \<open>ThreadPoolExecutor\<close> accepts
  them when \<open>max_workers\<close> is positive. At such a level, whatever order \<open>as_completed\<close>
  yields the futures in:

  \<^item> if some child task raises \<open>AWSTokenExpiredError\<close>, directly or as the \<open>__cause__\<close> of
    the exception it raises, then \<open>render_recursive\<close> raises: for one of these tasks, the
    \<open>AWSTokenExpiredError\<close> it raised, as it is, or the one that is the cause of what it
    raised, with its own \<open>__cause__\<close> reset to \<open>None\<close>;

  \<^item> if no child task does, no exception of a child task leaves the level: provided the
    final combined write does not raise, the call returns success with the message
    \<open>Rendered with N nested resources (errors: ...)\<close>, whose errors are, in some order
    and joined by \<open>; \<close>, one entry per child task that raised or returned a failure; for
    every exception \<open>e\<close> a task raised, the returned message contains \<open>name: str(e)\<close>.
\<close>

theorem render_recursive_pool_boundary:
  assumes depth: "current_depth < max_depth"
    and rendered: "render_helm_chart_to_string env app = Inr (True, rendered_content, msg)"
    and written: "write_rendered_output env rendered_content output_dir = None"
    and parsed: "parse_argocd_resources_from_manifest env rendered_content (source_file app)
           = Inr (child_apps, child_appsets)"
    and children: "all_child_apps
           = child_apps @ concat (map (to_app_configs (chart_exists env)) child_appsets)"
    and pool: "parallel" "length all_child_apps > 1" "max_workers > 0"
    and futures: "futures = child_futures env all_child_apps output_dir max_depth current_depth"
    and completed: "mset (as_completed env futures) = mset futures"
  shows "((\<exists>f\<in>set futures. token_expiry_of (snd f) \<noteq> None) \<longrightarrow>
            (\<exists>f\<in>set futures. \<exists>e. snd f = Inl e \<and>
               (if is_AWSTokenExpiredError e
                then render_recursive env app output_dir max_depth current_depth parallel
                       max_workers = Inl e
                else \<exists>c. exc_cause e = Some c \<and> is_AWSTokenExpiredError c \<and>
                       render_recursive env app output_dir max_depth current_depth parallel
                         max_workers = Inl (PyException True (exc_str c) None))))
       \<and> ((\<forall>f\<in>set futures. token_expiry_of (snd f) = None) \<longrightarrow>
            write_combined_recursive_output env output_dir = None \<longrightarrow>
            (\<exists>all_rendered child_errors.
               render_recursive env app output_dir max_depth current_depth parallel max_workers
                 = Inr (True,
                        ''Rendered with '' @ str_int (int (length all_rendered) - 1)
                          @ '' nested resources''
                          @ (if child_errors = [] then []
                             else '' (errors: '' @ join ''; '' child_errors @ '')''),
                        all_rendered) \<and>
               mset child_errors = mset (concat (map error_entry futures)) \<and>
               mset all_rendered = {#app_name app#} + mset (concat (map rendered_of futures)) \<and>
               (\<forall>f\<in>set futures. \<forall>e. snd f = Inl e \<longrightarrow>
                  (\<exists>before after.
                     render_recursive env app output_dir max_depth current_depth parallel
                       max_workers
                       = Inr (True, before @ fst f @ '': '' @ exc_str e @ after,
                              all_rendered)))))"
proof -
  let ?rr = "render_recursive env app output_dir max_depth current_depth parallel max_workers"
  have len: "length futures = length all_child_apps"
    by (simp add: futures child_futures_def)
  have level: "?rr =
     (case gather_children env app output_dir parallel max_workers futures of
        Inl e \<Rightarrow> Inl e
      | Inr acc \<Rightarrow> Inr (level_result msg (length all_child_apps) acc))"
    unfolding futures
    by (rule render_recursive_level [OF depth rendered written parsed children])
  have nonempty: "futures \<noteq> []"
    using pool(2) len by auto
  have gc: "gather_children env app output_dir parallel max_workers futures =
     (case gather_pool (as_completed env futures) ([app_name app], []) of
        Inl e \<Rightarrow> Inl e
      | Inr acc \<Rightarrow>
          (case write_combined_recursive_output env output_dir of
             Some e \<Rightarrow> Inl e
           | None \<Rightarrow> Inr acc))"
    using pool nonempty len by (simp add: gather_children_def)
  have same_set: "set (as_completed env futures) = set futures"
    using completed by (rule mset_eq_setD)
  show ?thesis
  proof (intro conjI impI)
    assume "\<exists>f\<in>set futures. token_expiry_of (snd f) \<noteq> None"
    then have "\<exists>f\<in>set (as_completed env futures). token_expiry_of (snd f) \<noteq> None"
      using same_set by simp
    then obtain f e' where f: "f \<in> set (as_completed env futures)"
      and e': "token_expiry_of (snd f) = Some e'"
      and g: "gather_pool (as_completed env futures) ([app_name app], []) = Inl e'"
      using gather_pool_expiry by blast
    have raised: "?rr = Inl e'"
      by (simp add: level gc g)
    obtain e where e: "snd f = Inl e"
      and which: "if is_AWSTokenExpiredError e then e' = e
                  else \<exists>c. exc_cause e = Some c \<and> is_AWSTokenExpiredError c \<and>
                         e' = PyException True (exc_str c) None"
      using token_expiry_of_cases [OF e'] by blast
    have "if is_AWSTokenExpiredError e then ?rr = Inl e
          else \<exists>c. exc_cause e = Some c \<and> is_AWSTokenExpiredError c \<and>
                 ?rr = Inl (PyException True (exc_str c) None)"
      using which raised by (auto split: if_splits)
    then show "\<exists>f\<in>set futures. \<exists>e. snd f = Inl e \<and>
        (if is_AWSTokenExpiredError e then ?rr = Inl e
         else \<exists>c. exc_cause e = Some c \<and> is_AWSTokenExpiredError c \<and>
                ?rr = Inl (PyException True (exc_str c) None))"
      using f e same_set by blast
  next
    assume none: "\<forall>f\<in>set futures. token_expiry_of (snd f) = None"
      and combined: "write_combined_recursive_output env output_dir = None"
    obtain all_rendered child_errors where
      g: "gather_pool (as_completed env futures) ([app_name app], [])
            = Inr (all_rendered, child_errors)"
      and r: "mset all_rendered = {#app_name app#} + mset (concat (map rendered_of futures))"
      and c: "mset child_errors = mset (concat (map error_entry futures))"
      using gather_pool_is_error_free [OF none completed, where acc = "([app_name app], [])"]
      by auto
    have result: "?rr = Inr (True,
        ''Rendered with '' @ str_int (int (length all_rendered) - 1)
          @ '' nested resources''
          @ (if child_errors = [] then []
             else '' (errors: '' @ join ''; '' child_errors @ '')''),
        all_rendered)"
      using pool(2) by (auto simp add: level gc g combined level_result_def level_message_def)
    have contained: "\<exists>before after.
        ?rr = Inr (True, before @ fst f @ '': '' @ exc_str e @ after, all_rendered)"
      if fin: "f \<in> set futures" and raised: "snd f = Inl e" for f e
    proof -
      have "error_entry f = [fst f @ '': '' @ exc_str e]"
        using raised by (cases f) simp
      moreover have "set (error_entry f) \<subseteq> set (concat (map error_entry futures))"
        using fin by auto
      ultimately have "fst f @ '': '' @ exc_str e \<in> set (concat (map error_entry futures))"
        by simp
      then have member: "fst f @ '': '' @ exc_str e \<in> set child_errors"
        using mset_eq_setD [OF c] by simp
      then have some: "child_errors \<noteq> []" by auto
      obtain b a where "join ''; '' child_errors = b @ (fst f @ '': '' @ exc_str e) @ a"
        using join_contains [OF member] by blast
      then have "?rr = Inr (True,
          (''Rendered with '' @ str_int (int (length all_rendered) - 1)
             @ '' nested resources'' @ '' (errors: '' @ b)
            @ fst f @ '': '' @ exc_str e @ (a @ '')''),
          all_rendered)"
        using result some by simp
      then show ?thesis by blast
    qed
    show "\<exists>all_rendered child_errors.
        ?rr = Inr (True,
                   ''Rendered with '' @ str_int (int (length all_rendered) - 1)
                     @ '' nested resources''
                     @ (if child_errors = [] then []
                        else '' (errors: '' @ join ''; '' child_errors @ '')''),
                   all_rendered) \<and>
        mset child_errors = mset (concat (map error_entry futures)) \<and>
        mset all_rendered = {#app_name app#} + mset (concat (map rendered_of futures)) \<and>
        (\<forall>f\<in>set futures. \<forall>e. snd f = Inl e \<longrightarrow>
           (\<exists>before after.
              ?rr = Inr (True, before @ fst f @ '': '' @ exc_str e @ after, all_rendered)))"
      using result c r contained by blast
  qed
qed

theorem render_recursive_pool_boundary_witness:
  "render_recursive demo_env (demo_app ''root:at'') [] 5 0 True 4 = Inl token_expired \<and>
   render_recursive demo_env (demo_app ''root:aw'') [] 5 0 True 4
     = Inl (PyException True ''AWS SSO token has expired. Run: aws sso login'' None) \<and>
   (\<exists>before after all_rendered.
      render_recursive demo_env (demo_app ''root:axb'') [] 5 0 True 4
        = Inr (True, before @ ''x: disk full'' @ after, all_rendered) \<and>
      mset all_rendered = {#''a'', ''root:axb''#}) \<and>
   render_recursive demo_env (demo_app ''root:axb'') [] 5 0 True 4
     = Inr (True, ''Rendered with 1 nested resources'' @
                  '' (errors: b: Helm template failed: boom; x: disk full)'',
            [''root:axb'', ''a''])"
proof (intro conjI)
  have parsed: "parse_argocd_resources_from_manifest demo_env (''root:'' @ cs) None
           = Inr (map (\<lambda>c. demo_app [c]) cs, [])" for cs
    by (simp add: demo_env_def demo_parse_def)
  have rendered: "render_helm_chart_to_string demo_env (demo_app (''root:'' @ cs))
           = Inr (True, ''root:'' @ cs, ''Chart pulled from OCI'')" for cs
    by (simp add: demo_env_def demo_render_def demo_app_def)
  have written: "write_rendered_output demo_env content dir = None" for content dir
    by (simp add: demo_env_def)
  have src: "source_file (demo_app n) = None" for n
    by (simp add: demo_app_def)
  have completed: "mset (as_completed demo_env fs) = mset fs" for fs
    by (simp add: demo_env_fields)
  have at: "child_futures demo_env [demo_app ''a'', demo_app ''t''] [] 5 0
      = [(''a'', Inr (''a'', True, ''Chart pulled from OCI'', [''a''])),
         (''t'', Inl token_expired)]"
    by (simp add: child_futures_def demo_children)
  have aw: "child_futures demo_env [demo_app ''a'', demo_app ''w''] [] 5 0
      = [(''a'', Inr (''a'', True, ''Chart pulled from OCI'', [''a''])),
         (''w'', Inl (PyException False ''cache failed'' (Some token_expired)))]"
    by (simp add: child_futures_def demo_children)
  have axb: "child_futures demo_env [demo_app ''a'', demo_app ''x'', demo_app ''b''] [] 5 0
      = [(''a'', Inr (''a'', True, ''Chart pulled from OCI'', [''a''])),
         (''x'', Inl (PyException False ''disk full'' None)),
         (''b'', Inr (''b'', False, ''Helm template failed: boom'', []))]"
    by (simp add: child_futures_def demo_children)
  show "render_recursive demo_env (demo_app ''root:at'') [] 5 0 True 4 = Inl token_expired"
    using render_recursive_pool_boundary [where env = demo_env and max_depth = 5
        and current_depth = 0 and output_dir = "[]" and parallel = True and max_workers = 4
        and msg = "''Chart pulled from OCI''" and child_appsets = "[]"
        and app = "demo_app ''root:at''" and rendered_content = "''root:at''"
        and child_apps = "[demo_app ''a'', demo_app ''t'']"
        and all_child_apps = "[demo_app ''a'', demo_app ''t'']"
        and futures = "child_futures demo_env [demo_app ''a'', demo_app ''t''] [] 5 0"]
      rendered [of "''at''"] parsed [of "''at''"]
    by (simp add: src written completed at token_expiry_of_def token_expired_def)
  show "render_recursive demo_env (demo_app ''root:aw'') [] 5 0 True 4
     = Inl (PyException True ''AWS SSO token has expired. Run: aws sso login'' None)"
    using render_recursive_pool_boundary [where env = demo_env and max_depth = 5
        and current_depth = 0 and output_dir = "[]" and parallel = True and max_workers = 4
        and msg = "''Chart pulled from OCI''" and child_appsets = "[]"
        and app = "demo_app ''root:aw''" and rendered_content = "''root:aw''"
        and child_apps = "[demo_app ''a'', demo_app ''w'']"
        and all_child_apps = "[demo_app ''a'', demo_app ''w'']"
        and futures = "child_futures demo_env [demo_app ''a'', demo_app ''w''] [] 5 0"]
      rendered [of "''aw''"] parsed [of "''aw''"]
    by (simp add: src written completed aw token_expiry_of_def token_expired_def
          raise_from_None_def)
  show "\<exists>before after all_rendered.
      render_recursive demo_env (demo_app ''root:axb'') [] 5 0 True 4
        = Inr (True, before @ ''x: disk full'' @ after, all_rendered) \<and>
      mset all_rendered = {#''a'', ''root:axb''#}"
    using render_recursive_pool_boundary [where env = demo_env and max_depth = 5
        and current_depth = 0 and output_dir = "[]" and parallel = True and max_workers = 4
        and msg = "''Chart pulled from OCI''" and child_appsets = "[]"
        and app = "demo_app ''root:axb''" and rendered_content = "''root:axb''"
        and child_apps = "[demo_app ''a'', demo_app ''x'', demo_app ''b'']"
        and all_child_apps = "[demo_app ''a'', demo_app ''x'', demo_app ''b'']"
        and futures = "child_futures demo_env [demo_app ''a'', demo_app ''x'', demo_app ''b''] [] 5 0"]
      rendered [of "''axb''"] parsed [of "''axb''"]
    by (simp add: src written completed axb token_expiry_of_def demo_env_fields) blast
  show "render_recursive demo_env (demo_app ''root:axb'') [] 5 0 True 4
     = Inr (True, ''Rendered with 1 nested resources'' @
                  '' (errors: b: Helm template failed: boom; x: disk full)'',
            [''root:axb'', ''a''])"
    using demo_root [of "''axb''" True 4]
    by (simp add: child_futures_def demo_children gather_children_def demo_env_fields
         record_child_def level_result_def level_message_def str_int_def str_nat_digit
         digit_char_def)
qed

subsection \<open>Depth bound\<close>

text \<open>
  C3. A call of \<open>render_recursive\<close> with \<open>current_depth \<ge> max_depth\<close> renders nothing: it
  returns success, the message \<open>Max recursion depth (max_depth) reached\<close> and an empty
  list of rendered names, whatever the environment, the application and the other
  arguments are. It never fails and never raises.
\<close>

theorem render_recursive_max_depth:
  assumes "current_depth \<ge> max_depth"
  shows "render_recursive env app output_dir max_depth current_depth parallel max_workers
           = Inr (True, ''Max recursion depth ('' @ str_int max_depth @ '') reached'', [])"
  using assms by (simp add: render_recursive.simps)

theorem render_recursive_max_depth_witness:
  "(2::int) \<ge> 2 \<and>
   render_recursive demo_env (demo_app ''root'') [] 2 2 True 4
     = Inr (True, ''Max recursion depth (2) reached'', [])"
  using render_recursive_max_depth [of 2 2 demo_env "demo_app ''root''" "[]" True 4]
  by (simp add: str_int_def str_nat_digit digit_char_def)

section \<open>Properties of the descriptor parser\<close>

subsection \<open>Values files\<close>

lemma py_replace_absent:
  assumes "old \<noteq> []" and "\<forall>j. \<not> startswith (drop j s) old"
  shows "py_replace old new s = s"
  using assms
proof (induction s)
  case Nil
  then show ?case by simp
next
  case (Cons c cs)
  have here: "\<not> startswith (c # cs) old"
    using Cons.prems(2) [rule_format, of 0] by simp
  have later: "\<forall>j. \<not> startswith (drop j cs) old"
  proof
    fix j
    show "\<not> startswith (drop j cs) old"
      using Cons.prems(2) [rule_format, of "Suc j"] by simp
  qed
  show ?case
    using Cons.IH [OF Cons.prems(1) later] here Cons.prems(1) by simp
qed

lemma py_replace_prefix:
  assumes "old \<noteq> []"
  shows "py_replace old new (old @ rest) = new @ py_replace old new rest"
proof -
  obtain c cs where s: "old @ rest = c # cs"
    using assms by (cases old) auto
  have "startswith (old @ rest) old"
    by (simp add: startswith_def)
  then show ?thesis
    using assms by (simp add: s [symmetric] py_replace.simps(2) [of old new c cs, folded s])
qed

text \<open>
  For every list of \<open>helm.valueFiles\<close> entries, \<open>_extract_values_files\<close> returns one entry
  per input entry, in order: an entry that does not start with \<open>$values/\<close> verbatim, and
  for an entry \<open>$values/rest\<close> in which \<open>$values/\<close> does not occur again, \<open>rest\<close>.
\<close>

lemma startswith_first:
  assumes "startswith s (c # p)"
  shows "c \<in> set s"
  using assms by (cases s) (auto simp: startswith_def)

theorem extract_values_files_entries:
  assumes "helm_valueFiles helm_config = Some raw_value_files"
    and "i < length raw_value_files"
  shows "length (extract_values_files helm_config) = length raw_value_files \<and>
         (\<not> startswith (raw_value_files ! i) ''$values/'' \<longrightarrow>
            extract_values_files helm_config ! i = raw_value_files ! i) \<and>
         (\<forall>rest. raw_value_files ! i = ''$values/'' @ rest \<and>
                 (\<forall>j. \<not> startswith (drop j rest) ''$values/'') \<longrightarrow>
            extract_values_files helm_config ! i = rest)"
proof (intro conjI impI allI)
  show "length (extract_values_files helm_config) = length raw_value_files"
    using assms(1) by (simp add: extract_values_files_def)
next
  assume "\<not> startswith (raw_value_files ! i) ''$values/''"
  then show "extract_values_files helm_config ! i = raw_value_files ! i"
    using assms by (simp add: extract_values_files_def)
next
  fix rest
  assume r: "raw_value_files ! i = ''$values/'' @ rest \<and>
             (\<forall>j. \<not> startswith (drop j rest) ''$values/'')"
  have "py_replace ''$values/'' [] (''$values/'' @ rest) = [] @ py_replace ''$values/'' [] rest"
    by (rule py_replace_prefix) simp
  moreover have "py_replace ''$values/'' [] rest = rest"
    using r by (intro py_replace_absent) simp_all
  moreover have "startswith (''$values/'' @ rest) ''$values/''"
    by (simp add: startswith_def)
  ultimately show "extract_values_files helm_config ! i = rest"
    using assms r by (simp add: extract_values_files_def)
qed

theorem extract_values_files_entries_witness:
  "length (extract_values_files \<lparr>helm_releaseName = None,
       helm_valueFiles = Some [''$values/envs/dev.yaml'', ''values.yaml''],
       helm_valuesObject = None\<rparr>) = 2 \<and>
   extract_values_files \<lparr>helm_releaseName = None,
       helm_valueFiles = Some [''$values/envs/dev.yaml'', ''values.yaml''],
       helm_valuesObject = None\<rparr> ! 0 = ''envs/dev.yaml''"
proof -
  have none: "\<not> startswith (drop j ''envs/dev.yaml'') ''$values/''" for j
  proof
    assume "startswith (drop j ''envs/dev.yaml'') ''$values/''"
    then have "CHR ''$'' \<in> set (drop j ''envs/dev.yaml'')"
      by (rule startswith_first)
    then have "CHR ''$'' \<in> set ''envs/dev.yaml''"
      by (rule in_set_dropD)
    then show False by simp
  qed
  show ?thesis
    using extract_values_files_entries [where i = 0
        and raw_value_files = "[''$values/envs/dev.yaml'', ''values.yaml'']"
        and helm_config = "\<lparr>helm_releaseName = None,
          helm_valueFiles = Some [''$values/envs/dev.yaml'', ''values.yaml''],
          helm_valuesObject = None\<rparr>"] none
    by simp
qed

text \<open>
  C8. The claim says that the remainder of a stripped path is returned verbatim. The code
  tests for the leading \<open>$values/\<close> with \<open>startswith\<close> but then removes it with
  \<open>vf.replace("$values/", "")\<close>, which removes every occurrence: for the entry
  \<open>$values/envs/$values/dev.yaml\<close> the remainder \<open>envs/$values/dev.yaml\<close> becomes
  \<open>envs/dev.yaml\<close>.
\<close>

theorem extract_values_files_replaces_every_occurrence:
  "extract_values_files \<lparr>helm_releaseName = None,
       helm_valueFiles = Some [''$values/envs/$values/dev.yaml'', ''values.yaml''],
       helm_valuesObject = None\<rparr> = [''envs/dev.yaml'', ''values.yaml'']"
  by (simp add: extract_values_files_def startswith_def)

subsection \<open>Sources of an Application\<close>

lemma classify_sources_helm:
  "fst (foldl (classify_source k) (h, kp, pp) sources)
     = (case h of Some x \<Rightarrow> Some x | None \<Rightarrow> find (\<lambda>src. src_chart src \<noteq> None) sources)"
proof (induction sources arbitrary: h kp pp)
  case Nil
  then show ?case by (simp split: option.splits)
next
  case (Cons src sources)
  obtain h' kp' pp' where step: "classify_source k (h, kp, pp) src = (h', kp', pp')"
    by (cases "classify_source k (h, kp, pp) src") auto
  have h': "h' = (if src_chart src \<noteq> None \<and> h = None then Some src else h)"
    using step by (auto simp: classify_source_def Let_def split: option.splits if_splits)
  show ?case
    using Cons.IH [of h' kp' pp'] by (simp add: step h' split: option.splits)
qed

lemma find_snoc:
  "find P (xs @ [x]) = (case find P xs of Some y \<Rightarrow> Some y | None \<Rightarrow> if P x then Some x else None)"
  by (induction xs) auto

text \<open>
  The loop over the sources of an Application keeps the first chart-bearing source, and,
  of the sources without \<open>ref\<close> and with a non-empty path, the path of the last one
  that is a Kustomize directory and the path of the last one that is not.
\<close>

theorem classify_sources_first_chart_last_path:
  "classify_sources k sources =
     (find (\<lambda>src. src_chart src \<noteq> None) sources,
      last_path (filter (\<lambda>src. path_candidate src \<and> k (the (src_path src))) sources),
      last_path (filter (\<lambda>src. path_candidate src \<and> \<not> k (the (src_path src))) sources))"
proof (induction sources rule: rev_induct)
  case Nil
  then show ?case by (simp add: classify_sources_def last_path_def)
next
  case (snoc src sources)
  have step: "classify_sources k (sources @ [src])
      = classify_source k (classify_sources k sources) src"
    by (simp add: classify_sources_def)
  show ?case
    unfolding step snoc.IH
    by (cases "src_path src"; cases "src_ref src"; cases "find (\<lambda>src. src_chart src \<noteq> None) sources")
       (auto simp: classify_source_def find_snoc last_path_def path_candidate_def str_truthy_def
             Let_def)
qed

text \<open>
  C7. For an Application document whose sources hold more than one chart-bearing entry, more
  than one Kustomize path or more than one plain-manifests path, parsing is said to honor the
  first entry of each kind. The source does so for the chart-bearing entries only: on the
  sample Application, whose sources are the charts \<open>chart-a\<close> and \<open>chart-b\<close>
  followed by the paths \<open>overlays/first\<close> and \<open>overlays/second\<close>, the descriptor
  has the chart \<open>chart-a\<close>, and the path \<open>overlays/second\<close> as its Kustomize path
  when both paths are Kustomize directories and as its plain-manifests path when neither is.
\<close>

theorem parse_argocd_application_last_path_wins:
  "map_option chart_name
     (parse_argocd_application (Some [Mapping demo_application]) ''apps/demo.yaml''
        (\<lambda>n. False) (\<lambda>p. True)) = Some ''chart-a'' \<and>
   map_option kustomize_path
     (parse_argocd_application (Some [Mapping demo_application]) ''apps/demo.yaml''
        (\<lambda>n. False) (\<lambda>p. True)) = Some (Some ''overlays/second'') \<and>
   map_option plain_manifests_path
     (parse_argocd_application (Some [Mapping demo_application]) ''apps/demo.yaml''
        (\<lambda>n. False) (\<lambda>p. False)) = Some (Some ''overlays/second'')"
  by (simp add: parse_argocd_application_def find_application_document_def demo_application_def
        demo_source_def get_or_def find_chart_source_def normalized_sources_def
        classify_sources_def classify_source_def str_truthy_def ArgoAppConfig_post_init_def
        extract_values_files_def extract_local_chart_name_def no_helm_config_def
        no_destination_def Let_def)

subsection \<open>Expansion of an ApplicationSet\<close>

lemma template_chart_source_overlay:
  "snd (template_chart_source sources) =
     (case find (\<lambda>source. src_chart source \<noteq> None) sources of
        Some source \<Rightarrow> helm_valuesObject (get_or (src_helm source) no_helm_config)
      | None \<Rightarrow> None)"
  by (induction sources) auto

text \<open>
  C4. A manifest that holds an ApplicationSet document with N list-generator elements is
  parsed, and its expansion has exactly N descriptors, in the order of the elements; each has
  the destination namespace of the ApplicationSet as its namespace, the values overlay of the
  ApplicationSet as its \<open>values_object\<close>, the element's \<open>origin\<close> as chart name,
  \<open>helm-charts/\<close> followed by the origin as OCI chart name, the element's name as
  release name, and as values files the single path \<open>kubernetes/origin/valuesFile\<close>
  when the element has a non-empty \<open>valuesFile\<close>, none otherwise.
\<close>

theorem applicationset_expansion:
  assumes "find_applicationset_document manifest_docs = Some doc"
  shows "\<exists>appset.
    parse_applicationset_from_manifest manifest_docs src_file = Some appset \<and>
    destination_namespace appset = appset_destination_namespace doc \<and>
    values_overlay appset = appset_values_overlay doc \<and>
    length (to_app_configs chart_path_exists appset) = length (appset_elements doc) \<and>
    (\<forall>i < length (appset_elements doc).
       app_namespace (to_app_configs chart_path_exists appset ! i)
         = appset_destination_namespace doc \<and>
       values_object (to_app_configs chart_path_exists appset ! i) = appset_values_overlay doc \<and>
       chart_name (to_app_configs chart_path_exists appset ! i)
         = get_or ((appset_elements doc ! i) ''origin'') [] \<and>
       oci_chart_name (to_app_configs chart_path_exists appset ! i)
         = Some (''helm-charts/'' @ get_or ((appset_elements doc ! i) ''origin'') []) \<and>
       release_name (to_app_configs chart_path_exists appset ! i)
         = get_or ((appset_elements doc ! i) ''name'') [] \<and>
       values_files (to_app_configs chart_path_exists appset ! i)
         = (if get_or ((appset_elements doc ! i) ''valuesFile'') [] \<noteq> []
            then [''kubernetes/'' @ get_or ((appset_elements doc ! i) ''origin'') [] @ ''/''
                    @ get_or ((appset_elements doc ! i) ''valuesFile'') []]
            else []))"
proof -
  define appset where "appset = the (parse_applicationset_from_manifest manifest_docs src_file)"
  have parsed: "parse_applicationset_from_manifest manifest_docs src_file = Some appset"
    using assms by (simp add: appset_def parse_applicationset_from_manifest_def Let_def)
  have ns: "destination_namespace appset = appset_destination_namespace doc"
    using assms
    by (simp add: appset_def parse_applicationset_from_manifest_def Let_def
          appset_destination_namespace_def appset_template_spec_def)
  have overlay: "values_overlay appset = appset_values_overlay doc"
    using assms
    by (simp add: appset_def parse_applicationset_from_manifest_def Let_def
          appset_values_overlay_def appset_template_spec_def template_chart_source_overlay)
  have elems: "generator_elements appset
      = map (make_generator_element (get_or (meta_namespace
               (get_or (appset_metadata doc) no_metadata)) ''argocd'')) (appset_elements doc)"
    using assms
    by (simp add: appset_def parse_applicationset_from_manifest_def Let_def appset_elements_def)
  have len: "length (to_app_configs chart_path_exists appset) = length (appset_elements doc)"
    by (simp add: to_app_configs_def elems)
  have child: "to_app_configs chart_path_exists appset ! i
      = elem_to_app_config chart_path_exists appset
          (make_generator_element (get_or (meta_namespace
               (get_or (appset_metadata doc) no_metadata)) ''argocd'') (appset_elements doc ! i))"
    if "i < length (appset_elements doc)" for i
    using that by (simp add: to_app_configs_def elems)
  show ?thesis
  proof (intro exI conjI allI impI)
    show "parse_applicationset_from_manifest manifest_docs src_file = Some appset"
      by (rule parsed)
    show "destination_namespace appset = appset_destination_namespace doc"
      by (rule ns)
    show "values_overlay appset = appset_values_overlay doc"
      by (rule overlay)
    show "length (to_app_configs chart_path_exists appset) = length (appset_elements doc)"
      by (rule len)
  next
    fix i
    assume i: "i < length (appset_elements doc)"
    show "app_namespace (to_app_configs chart_path_exists appset ! i)
         = appset_destination_namespace doc"
      by (simp add: child [OF i] elem_to_app_config_def ArgoAppConfig_post_init_def Let_def ns)
    show "values_object (to_app_configs chart_path_exists appset ! i) = appset_values_overlay doc"
      by (simp add: child [OF i] elem_to_app_config_def ArgoAppConfig_post_init_def Let_def
            overlay)
    show "chart_name (to_app_configs chart_path_exists appset ! i)
         = get_or ((appset_elements doc ! i) ''origin'') []"
      by (simp add: child [OF i] elem_to_app_config_def ArgoAppConfig_post_init_def Let_def
            make_generator_element_def get_or_def split: option.splits)
    show "oci_chart_name (to_app_configs chart_path_exists appset ! i)
         = Some (''helm-charts/'' @ get_or ((appset_elements doc ! i) ''origin'') [])"
      by (simp add: child [OF i] elem_to_app_config_def ArgoAppConfig_post_init_def Let_def
            make_generator_element_def get_or_def split: option.splits)
    show "release_name (to_app_configs chart_path_exists appset ! i)
         = get_or ((appset_elements doc ! i) ''name'') []"
      by (simp add: child [OF i] elem_to_app_config_def ArgoAppConfig_post_init_def Let_def
            make_generator_element_def)
    show "values_files (to_app_configs chart_path_exists appset ! i)
         = (if get_or ((appset_elements doc ! i) ''valuesFile'') [] \<noteq> []
            then [''kubernetes/'' @ get_or ((appset_elements doc ! i) ''origin'') [] @ ''/''
                    @ get_or ((appset_elements doc ! i) ''valuesFile'') []]
            else [])"
      by (simp add: child [OF i] elem_to_app_config_def ArgoAppConfig_post_init_def Let_def
            make_generator_element_def get_or_def split: option.splits)
  qed
qed

theorem applicationset_expansion_witness:
  "\<exists>appset.
     parse_applicationset_from_manifest [NotMapping, Mapping demo_applicationset] None
       = Some appset \<and>
     length (to_app_configs (\<lambda>n. False) appset) = 2 \<and>
     app_namespace (to_app_configs (\<lambda>n. False) appset ! 0) = ''prod'' \<and>
     values_object (to_app_configs (\<lambda>n. False) appset ! 0) = Some (YDict [(''env'', YStr ''dev'')]) \<and>
     chart_name (to_app_configs (\<lambda>n. False) appset ! 0) = ''backend'' \<and>
     oci_chart_name (to_app_configs (\<lambda>n. False) appset ! 0) = Some ''helm-charts/backend'' \<and>
     release_name (to_app_configs (\<lambda>n. False) appset ! 0) = ''api'' \<and>
     values_files (to_app_configs (\<lambda>n. False) appset ! 0) = [''kubernetes/backend/values-dev.yaml'']"
proof -
  have found: "find_applicationset_document [NotMapping, Mapping demo_applicationset]
      = Some demo_applicationset"
    by (simp add: find_applicationset_document_def demo_applicationset_def)
  have elems: "appset_elements demo_applicationset
      = [[''name'' \<mapsto> ''api'', ''origin'' \<mapsto> ''backend'', ''valuesFile'' \<mapsto> ''values-dev.yaml''],
         [''name'' \<mapsto> ''cache'', ''origin'' \<mapsto> ''redis'']]"
    by (simp add: appset_elements_def demo_applicationset_def list_generator_elements_def
          get_or_def)
  have ns: "appset_destination_namespace demo_applicationset = ''prod''"
    by (simp add: appset_destination_namespace_def appset_template_spec_def
          demo_applicationset_def get_or_def)
  have overlay: "appset_values_overlay demo_applicationset = Some (YDict [(''env'', YStr ''dev'')])"
    by (simp add: appset_values_overlay_def appset_template_spec_def demo_applicationset_def
          get_or_def)
  show ?thesis
    using applicationset_expansion [OF found, of None "\<lambda>n. False"]
    by (auto simp add: elems ns overlay get_or_def)
qed

section \<open>Properties of the diff engine\<close>

subsection \<open>Helper lemmas\<close>

lemma diff_block_same: "diff_block env m identity raw raw = None"
  by (simp add: diff_block_def)

lemma diff_loop_same: "diff_loop env m docs docs diffs identities = diffs"
  by (induction identities) (simp_all add: diff_block_same)

lemma well_formed_document_entry:
  assumes "well_formed_document env raw"
  shows "\<exists>entry. doc_entry env raw = Inr entry"
  using assms
  by (auto simp: well_formed_document_def doc_entry_def load_entry_def get_manifest_name_def
        Let_def split: sum.splits yaml.splits diff_error.splits if_splits)

lemma parse_docs_loop_returns:
  assumes "\<forall>raw \<in> set docs_raw. \<exists>entry. doc_entry env raw = Inr entry"
  shows "\<exists>docs. parse_docs_loop env result docs_raw = Inr docs"
  using assms
proof (induction docs_raw arbitrary: result)
  case Nil
  then show ?case by simp
next
  case (Cons raw docs_raw)
  then obtain entry where entry: "doc_entry env raw = Inr entry" by auto
  show ?case
    using Cons.IH Cons.prems by (cases entry) (auto simp: entry)
qed

lemma well_formed_stream_parses:
  assumes "well_formed_stream env content"
  shows "\<exists>docs. parse_docs env (py_split content ''\<newline>---\<newline>'') = Inr docs"
  unfolding parse_docs_def
  using assms
  by (intro parse_docs_loop_returns) (auto simp: well_formed_stream_def list_all_iff
        well_formed_document_entry)

lemma same_tables_refl: "same_tables a a"
  by (simp add: same_tables_def split: sum.splits)

lemma parse_docs_loop_cong:
  assumes "map_of result = map_of result'"
  shows "same_tables (parse_docs_loop env result docs_raw) (parse_docs_loop env result' docs_raw)"
  using assms
proof (induction docs_raw arbitrary: result result')
  case Nil
  then show ?case by (simp add: same_tables_def)
next
  case (Cons raw docs_raw)
  show ?case
  proof (cases "doc_entry env raw")
    case (Inl e)
    then show ?thesis by (simp add: same_tables_def)
  next
    case (Inr entry)
    show ?thesis
    proof (cases entry)
      case None
      then show ?thesis using Inr Cons.IH [OF Cons.prems] by simp
    next
      case (Some kv)
      obtain k v where kv: "kv = (k, v)" by (cases kv)
      have "map_of (AList.update k v result) = map_of (AList.update k v result')"
        by (simp add: update_conv' Cons.prems)
      then show ?thesis using Inr Some kv Cons.IH by simp
    qed
  qed
qed

lemma parse_docs_loop_overwritten:
  assumes "doc_entry env r2 = Inr (Some (k, v2))"
    and "\<And>k'. k' \<noteq> k \<Longrightarrow> map_of result1 k' = map_of result k'"
  shows "same_tables (parse_docs_loop env result1 (ys @ r2 # zs))
           (parse_docs_loop env result (ys @ r2 # zs))"
  using assms(2)
proof (induction ys arbitrary: result1 result)
  case Nil
  have "map_of (AList.update k v2 result1) = map_of (AList.update k v2 result)"
    by (rule ext) (simp add: update_conv' Nil)
  then show ?case
    by (simp add: assms(1) parse_docs_loop_cong)
next
  case (Cons y ys)
  show ?case
  proof (cases "doc_entry env y")
    case (Inl e)
    then show ?thesis by (simp add: same_tables_def)
  next
    case (Inr entry)
    show ?thesis
    proof (cases entry)
      case None
      then show ?thesis using Inr Cons.IH [OF Cons.prems] by simp
    next
      case (Some kv)
      obtain k0 v0 where kv: "kv = (k0, v0)" by (cases kv)
      have "same_tables (parse_docs_loop env (AList.update k0 v0 result1) (ys @ r2 # zs))
              (parse_docs_loop env (AList.update k0 v0 result) (ys @ r2 # zs))"
        by (rule Cons.IH) (simp add: update_conv' Cons.prems)
      then show ?thesis using Inr Some kv by simp
    qed
  qed
qed

lemma parse_docs_loop_prefix:
  assumes "\<And>result. same_tables (parse_docs_loop env result docs1)
             (parse_docs_loop env result docs2)"
  shows "same_tables (parse_docs_loop env result (xs @ docs1))
           (parse_docs_loop env result (xs @ docs2))"
proof (induction xs arbitrary: result)
  case Nil
  then show ?case by (simp add: assms)
next
  case (Cons x xs)
  show ?case
  proof (cases "doc_entry env x")
    case (Inl e)
    then show ?thesis by (simp add: same_tables_def)
  next
    case (Inr entry)
    show ?thesis
    proof (cases entry)
      case None
      then show ?thesis using Inr Cons.IH by simp
    next
      case (Some kv)
      obtain k0 v0 where kv: "kv = (k0, v0)" by (cases kv)
      show ?thesis using Inr Some kv Cons.IH by simp
    qed
  qed
qed

lemma parse_docs_duplicate:
  assumes "doc_entry env r1 = Inr (Some (k, v1))" and "doc_entry env r2 = Inr (Some (k, v2))"
  shows "same_tables (parse_docs env (xs @ r1 # ys @ r2 # zs))
           (parse_docs env (xs @ ys @ r2 # zs))"
  unfolding parse_docs_def
proof (rule parse_docs_loop_prefix)
  fix result
  have "same_tables (parse_docs_loop env (AList.update k v1 result) (ys @ r2 # zs))
          (parse_docs_loop env result (ys @ r2 # zs))"
    by (rule parse_docs_loop_overwritten [OF assms(2)]) (simp add: update_conv')
  then show "same_tables (parse_docs_loop env result (r1 # ys @ r2 # zs))
               (parse_docs_loop env result (ys @ r2 # zs))"
    by (simp add: assms(1))
qed

lemma table_raw_cong: "map_of docs = map_of docs' \<Longrightarrow> table_raw docs = table_raw docs'"
  by (rule ext) (simp add: table_raw_def)

lemma diff_loop_cong:
  assumes "table_raw b = table_raw b'" and "table_raw n = table_raw n'"
  shows "diff_loop env m b n diffs identities = diff_loop env m b' n' diffs identities"
  by (induction identities arbitrary: diffs) (simp_all add: assms split: option.splits)

lemma sort_remdups_cong: "set xs = set ys \<Longrightarrow> sort (remdups xs) = sort (remdups ys)"
  by (metis sorted_list_of_set_sort_remdups)

lemma diff_tables_cong:
  assumes "map_of b = map_of b'" and "map_of n = map_of n'"
  shows "diff_tables env m b n = diff_tables env m b' n'"
proof -
  have keys_b: "fst ` set b = fst ` set b'"
    by (simp add: dom_map_of_conv_image_fst [symmetric] assms(1))
  have keys_n: "fst ` set n = fst ` set n'"
    by (simp add: dom_map_of_conv_image_fst [symmetric] assms(2))
  have ids: "sort (remdups (map fst b @ map fst n)) = sort (remdups (map fst b' @ map fst n'))"
    by (rule sort_remdups_cong) (simp add: keys_b keys_n)
  have loop: "diff_loop env m b n diffs identities = diff_loop env m b' n' diffs identities"
    for diffs identities
    by (rule diff_loop_cong [OF table_raw_cong [OF assms(1)] table_raw_cong [OF assms(2)]])
  show ?thesis
    unfolding diff_tables_def Let_def ids loop ..
qed

lemma diff_manifests_cong:
  assumes "same_tables (parse_docs env (py_split b ''\<newline>---\<newline>''))
             (parse_docs env (py_split b' ''\<newline>---\<newline>''))"
    and "same_tables (parse_docs env (py_split n ''\<newline>---\<newline>''))
             (parse_docs env (py_split n' ''\<newline>---\<newline>''))"
  shows "diff_manifests env b n m = diff_manifests env b' n' m"
proof (cases "parse_docs env (py_split b ''\<newline>---\<newline>'')")
  case (Inl e)
  then show ?thesis
    using assms(1) by (simp add: diff_manifests_def same_tables_def split: sum.splits)
next
  case b: (Inr bd)
  then obtain bd' where b': "parse_docs env (py_split b' ''\<newline>---\<newline>'') = Inr bd'"
    and mb: "map_of bd = map_of bd'"
    using assms(1) by (auto simp: same_tables_def split: sum.splits)
  show ?thesis
  proof (cases "parse_docs env (py_split n ''\<newline>---\<newline>'')")
    case (Inl e)
    then show ?thesis
      using assms(2) b b' by (simp add: diff_manifests_def same_tables_def split: sum.splits)
  next
    case n: (Inr nd)
    then obtain nd' where n': "parse_docs env (py_split n' ''\<newline>---\<newline>'') = Inr nd'"
      and mn: "map_of nd = map_of nd'"
      using assms(2) by (auto simp: same_tables_def split: sum.splits)
    show ?thesis
      by (simp add: diff_manifests_def b b' n n' diff_tables_cong [OF mb mn])
  qed
qed

lemma parse_docs_loop_table:
  assumes "parse_docs_loop env result docs_raw = Inr docs"
  shows "map_of docs = map_of (rev (doc_entries env docs_raw) @ result)"
  using assms
proof (induction docs_raw arbitrary: result)
  case Nil
  then show ?case by (simp add: doc_entries_def)
next
  case (Cons raw docs_raw)
  show ?case
  proof (cases "doc_entry env raw")
    case (Inl e)
    then show ?thesis using Cons.prems by simp
  next
    case (Inr entry)
    show ?thesis
    proof (cases entry)
      case None
      then show ?thesis
        using Inr Cons.prems Cons.IH [of result] by (simp add: doc_entries_def)
    next
      case (Some kv)
      obtain k v where kv: "kv = (k, v)" by (cases kv)
      have "parse_docs_loop env (AList.update k v result) docs_raw = Inr docs"
        using Cons.prems Inr Some kv by simp
      then have "map_of docs = map_of (rev (doc_entries env docs_raw) @ AList.update k v result)"
        by (rule Cons.IH)
      also have "\<dots> = map_of (rev (doc_entries env docs_raw) @ (k, v) # result)"
        by (simp add: update_conv')
      also have "\<dots> = map_of (rev (doc_entries env (raw # docs_raw)) @ result)"
        using Inr Some kv by (simp add: doc_entries_def)
      finally show ?thesis .
    qed
  qed
qed

lemma parse_docs_table:
  assumes "parse_docs env docs_raw = Inr docs"
  shows "map_of docs = map_of (rev (doc_entries env docs_raw))"
  using parse_docs_loop_table [of env "[]" docs_raw docs] assms by (simp add: parse_docs_def)

lemma parse_docs_keys:
  assumes "parse_docs env docs_raw = Inr docs"
  shows "set (map fst docs) = set (map fst (doc_entries env docs_raw))"
proof -
  have "fst ` set docs = fst ` set (rev (doc_entries env docs_raw))"
    by (simp only: dom_map_of_conv_image_fst [symmetric] parse_docs_table [OF assms])
  then show ?thesis by simp
qed

lemma doc_entry_raw_nonempty:
  assumes "doc_entry env raw0 = Inr (Some (k, raw, d))"
  shows "raw \<noteq> []"
  using assms
  by (auto simp: doc_entry_def load_entry_def Let_def
        split: if_splits sum.splits yaml.splits diff_error.splits)

lemma doc_entries_raw_nonempty:
  assumes "(k, raw, d) \<in> set (doc_entries env docs_raw)"
  shows "raw \<noteq> []"
proof -
  obtain raw0 where "doc_entry env raw0 = Inr (Some (k, raw, d))"
    using assms by (auto simp: doc_entries_def split: sum.splits option.splits)
  then show ?thesis by (rule doc_entry_raw_nonempty)
qed

lemma stream_table_nonempty: "stream_table env content k \<noteq> Some []"
proof
  assume "stream_table env content k = Some []"
  then obtain d where
    "map_of (rev (doc_entries env (py_split content ''\<newline>---\<newline>''))) k = Some ([], d)"
    by (auto simp: stream_table_def)
  then have "(k, [], d) \<in> set (doc_entries env (py_split content ''\<newline>---\<newline>''))"
    using map_of_SomeD by fastforce
  then show False using doc_entries_raw_nonempty by blast
qed

lemma parse_docs_raw_text:
  assumes "parse_docs env (py_split content ''\<newline>---\<newline>'') = Inr docs"
  shows "raw_text docs = stream_table env content"
  by (simp add: raw_text_def stream_table_def parse_docs_table [OF assms])

lemma table_raw_raw_text:
  "table_raw docs k = (case raw_text docs k of None \<Rightarrow> [] | Some raw \<Rightarrow> raw)"
  by (simp add: table_raw_def raw_text_def split: option.splits)

lemma py_take_nat: "py_take (int cap) xs = take cap xs"
  by (simp add: py_take_def)

lemma capped_diff_empty: "capped_diff cap diff = [] \<longleftrightarrow> diff = []"
  by (auto simp: capped_diff_def)

lemma diff_block_resource_block:
  assumes "raw_text b k \<noteq> Some []" and "raw_text n k \<noteq> Some []"
  shows "diff_block env (int cap) k (table_raw b k) (table_raw n k) =
     (if resource_block env cap (raw_text b) (raw_text n) k = [] then None
      else Some (resource_block env cap (raw_text b) (raw_text n) k))"
proof (cases "raw_text b k")
  case None
  note b = this
  show ?thesis
  proof (cases "raw_text n k")
    case None
    then show ?thesis
      using b by (simp add: table_raw_raw_text diff_block_def resource_block_def)
  next
    case (Some new_raw)
    then have "new_raw \<noteq> []" using assms(2) by auto
    then show ?thesis
      using b Some
      by (simp add: table_raw_raw_text diff_block_def resource_block_def listing_def
            py_take_nat Let_def of_nat_diff)
  qed
next
  case (Some baseline_raw)
  note b = this
  then have nb: "baseline_raw \<noteq> []" using assms(1) by auto
  show ?thesis
  proof (cases "raw_text n k")
    case None
    then show ?thesis
      using b nb
      by (simp add: table_raw_raw_text diff_block_def resource_block_def listing_def
            py_take_nat Let_def of_nat_diff)
  next
    case (Some new_raw)
    then have "new_raw \<noteq> []" using assms(2) by auto
    then show ?thesis
      using b nb Some
      by (simp add: table_raw_raw_text diff_block_def resource_block_def capped_diff_def
            py_take_nat Let_def)
  qed
qed

lemma diff_loop_blocks:
  assumes "\<And>k. diff_block env m k (table_raw b k) (table_raw n k)
             = (if blk k = [] then None else Some (blk k))"
  shows "diff_loop env m b n diffs identities
           = diffs @ map concat (filter (\<lambda>block. block \<noteq> []) (map blk identities))"
  by (induction identities arbitrary: diffs) (simp_all add: assms)

lemma join_butlast:
  assumes "xs \<noteq> []"
  shows "join sep xs = concat (map (\<lambda>x. x @ sep) (butlast xs)) @ last xs"
  using assms by (induction sep xs rule: join.induct) simp_all

lemma resource_block_length:
  "length (resource_block env cap baseline current identity) \<le> cap + 2"
  by (simp add: resource_block_def listing_def capped_diff_def split: option.splits)

lemma diff_tables_blocks:
  assumes b: "parse_docs env (py_split baseline_content ''\<newline>---\<newline>'') = Inr baseline_docs"
    and n: "parse_docs env (py_split new_content ''\<newline>---\<newline>'') = Inr new_docs"
  shows "diff_tables env (int cap) baseline_docs new_docs =
     (diff_blocks env cap baseline_content new_content \<noteq> [],
      if diff_blocks env cap baseline_content new_content = [] then []
      else concat (map (\<lambda>block. concat block @ ''\<newline>'')
                     (butlast (diff_blocks env cap baseline_content new_content)))
             @ concat (last (diff_blocks env cap baseline_content new_content)))"
proof -
  let ?blk = "resource_block env cap (stream_table env baseline_content)
                (stream_table env new_content)"
  let ?ids = "sort (remdups (stream_identities env baseline_content
                               @ stream_identities env new_content))"
  have tb: "raw_text baseline_docs = stream_table env baseline_content"
    by (rule parse_docs_raw_text [OF b])
  have tn: "raw_text new_docs = stream_table env new_content"
    by (rule parse_docs_raw_text [OF n])
  have ids: "sort (remdups (map fst baseline_docs @ map fst new_docs)) = ?ids"
    by (rule sort_remdups_cong)
       (simp add: stream_identities_def parse_docs_keys [OF b, simplified]
          parse_docs_keys [OF n, simplified])
  have block: "diff_block env (int cap) k (table_raw baseline_docs k) (table_raw new_docs k)
      = (if ?blk k = [] then None else Some (?blk k))" for k
    using diff_block_resource_block [of baseline_docs k new_docs env cap]
    by (simp add: tb tn stream_table_nonempty)
  have loop: "diff_loop env (int cap) baseline_docs new_docs [] ?ids
      = map concat (diff_blocks env cap baseline_content new_content)"
    using diff_loop_blocks [of env "int cap" baseline_docs new_docs ?blk "[]" ?ids, OF block]
    by (simp add: diff_blocks_def)
  show ?thesis
  proof (cases "diff_blocks env cap baseline_content new_content = []")
    case True
    then show ?thesis
      by (simp add: diff_tables_def Let_def ids loop)
  next
    case False
    then have "join ''\<newline>'' (map concat (diff_blocks env cap baseline_content new_content))
        = concat (map (\<lambda>block. concat block @ ''\<newline>'')
                    (butlast (diff_blocks env cap baseline_content new_content)))
            @ concat (last (diff_blocks env cap baseline_content new_content))"
      by (simp add: join_butlast map_butlast [symmetric] last_map comp_def)
    then show ?thesis
      using False by (simp add: diff_tables_def Let_def ids loop)
  qed
qed

lemma doc_entries_member:
  assumes "(k, v) \<in> set (doc_entries env zs)"
  shows "\<exists>z\<in>set zs. doc_entry env z = Inr (Some (k, v))"
  using assms
proof (induction zs)
  case Nil
  then show ?case by (simp add: doc_entries_def)
next
  case (Cons z zs)
  show ?case
  proof (cases "doc_entry env z")
    case (Inl e)
    then have "doc_entries env (z # zs) = doc_entries env zs"
      by (simp add: doc_entries_def)
    then show ?thesis using Cons by auto
  next
    case (Inr entry)
    show ?thesis
    proof (cases entry)
      case None
      then have "doc_entries env (z # zs) = doc_entries env zs"
        using Inr by (simp add: doc_entries_def)
      then show ?thesis using Cons by auto
    next
      case (Some kv)
      then have "doc_entries env (z # zs) = kv # doc_entries env zs"
        using Inr by (simp add: doc_entries_def)
      then show ?thesis using Cons Inr Some by auto
    qed
  qed
qed

lemma doc_entries_without:
  assumes "\<forall>z\<in>set zs. \<forall>v. doc_entry env z \<noteq> Inr (Some (k, v))"
  shows "k \<notin> fst ` set (doc_entries env zs)"
proof
  assume "k \<in> fst ` set (doc_entries env zs)"
  then obtain v where "(k, v) \<in> set (doc_entries env zs)" by auto
  then show False using doc_entries_member assms by blast
qed

lemma parse_docs_last:
  assumes parsed: "parse_docs env (pre @ r2 # zs) = Inr docs"
    and r2: "doc_entry env r2 = Inr (Some (k, v2))"
    and later: "\<forall>z\<in>set zs. \<forall>v. doc_entry env z \<noteq> Inr (Some (k, v))"
  shows "map_of docs k = Some v2"
proof -
  have entries: "doc_entries env (pre @ r2 # zs)
      = doc_entries env pre @ (k, v2) # doc_entries env zs"
    using r2 by (simp add: doc_entries_def)
  have "map_of (rev (doc_entries env zs)) k = None"
    using doc_entries_without [OF later] by (simp add: map_of_eq_None_iff)
  then have "map_of (rev (doc_entries env (pre @ r2 # zs))) k = Some v2"
    by (simp add: entries map_add_def)
  then show ?thesis
    by (simp add: parse_docs_table [OF parsed])
qed

lemma demo_baseline_split:
  "py_split demo_baseline ''\<newline>---\<newline>'' =
     [''{kind: Service, metadata: {name: web}, port: 81}'',
      ''{kind: Service, metadata: {name: web}, port: 80}'',
      ''{kind: Job, metadata: {name: init, namespace: ops}}\<newline>'']"
  by (simp add: demo_baseline_def py_split_def startswith_def)

lemma demo_deduplicated_split:
  "py_split demo_deduplicated ''\<newline>---\<newline>'' =
     [''{kind: Service, metadata: {name: web}, port: 80}'',
      ''{kind: Job, metadata: {name: init, namespace: ops}}\<newline>'']"
  by (simp add: demo_deduplicated_def py_split_def startswith_def)

lemma demo_current_split:
  "py_split demo_current ''\<newline>---\<newline>'' =
     [''{kind: Service, metadata: {name: web}, port: 81}'']"
  by (simp add: demo_current_def py_split_def startswith_def)

lemma demo_strip:
  "py_strip ''{kind: Service, metadata: {name: web}, port: 81}''
     = ''{kind: Service, metadata: {name: web}, port: 81}''"
  "py_strip ''{kind: Service, metadata: {name: web}, port: 80}''
     = ''{kind: Service, metadata: {name: web}, port: 80}''"
  "py_strip ''{kind: Job, metadata: {name: init, namespace: ops}}\<newline>''
     = ''{kind: Job, metadata: {name: init, namespace: ops}}''"
  by (simp_all add: py_strip_def py_rstrip_def py_isspace_def)

lemma demo_entries:
  "doc_entry demo_diff_env ''{kind: Service, metadata: {name: web}, port: 81}''
     = Inr (Some (''Service/web'', ''{kind: Service, metadata: {name: web}, port: 81}'',
         YDict [(''kind'', YStr ''Service''),
                (''metadata'', YDict [(''name'', YStr ''web'')]), (''port'', YInt 81)]))"
  "doc_entry demo_diff_env ''{kind: Service, metadata: {name: web}, port: 80}''
     = Inr (Some (''Service/web'', ''{kind: Service, metadata: {name: web}, port: 80}'',
         YDict [(''kind'', YStr ''Service''),
                (''metadata'', YDict [(''name'', YStr ''web'')]), (''port'', YInt 80)]))"
  "doc_entry demo_diff_env ''{kind: Job, metadata: {name: init, namespace: ops}}\<newline>''
     = Inr (Some (''Job/ops/init'', ''{kind: Job, metadata: {name: init, namespace: ops}}'',
         YDict [(''kind'', YStr ''Job''),
                (''metadata'', YDict [(''name'', YStr ''init''), (''namespace'', YStr ''ops'')])]))"
  by (simp_all add: doc_entry_def demo_strip load_entry_def demo_diff_env_def demo_load_def
        get_manifest_name_def dict_get_def py_truthy_def py_str_def)

lemma demo_well_formed:
  "well_formed_stream demo_diff_env demo_baseline"
  "well_formed_stream demo_diff_env demo_current"
  by (simp_all add: well_formed_stream_def demo_baseline_split demo_current_split
        well_formed_document_def demo_strip demo_diff_env_def demo_load_def dict_get_def)

lemma demo_diff_deduplicated:
  "diff_manifests demo_diff_env demo_deduplicated demo_current 250
     = Inr (True,
         ''--- REMOVED: Job/ops/init\<newline>'' @
         ''-{kind: Job, metadata: {name: init, namespace: ops}}\<newline>'' @
         ''\<newline>'' @
         ''--- baseline/Service/web\<newline>+++ current/Service/web\<newline>@@ -1 +1 @@\<newline>'' @
         ''-{kind: Service, metadata: {name: web}, port: 80}'' @
         ''+{kind: Service, metadata: {name: web}, port: 81}'')"
  by code_simp

lemma demo_blocks:
  "diff_blocks demo_diff_env 250 demo_current demo_deduplicated =
     [[''+++ NEW: Job/ops/init\<newline>'',
       ''+{kind: Job, metadata: {name: init, namespace: ops}}\<newline>''],
      [''--- baseline/Service/web\<newline>'', ''+++ current/Service/web\<newline>'',
       ''@@ -1 +1 @@\<newline>'', ''-{kind: Service, metadata: {name: web}, port: 81}'',
       ''+{kind: Service, metadata: {name: web}, port: 80}'']]"
  by code_simp

lemma demo_deduplicated_well_formed: "well_formed_stream demo_diff_env demo_deduplicated"
  by (simp add: well_formed_stream_def demo_deduplicated_split
        well_formed_document_def demo_strip demo_diff_env_def demo_load_def dict_get_def)

subsection \<open>Identical streams\<close>

text \<open>
  C5. Diffing a stream against itself gives \<open>(False, "")\<close>, whatever the order of its
  documents and whatever the line cap, for every stream whose documents are well formed:
  both sides are parsed into the same table, the loop over the identities finds the same
  raw text on both sides for each of them, and no block is made. The restriction to well
  formed documents is needed, as the stream \<open>metadata: 5\<close> below shows.
\<close>

theorem diff_manifests_identical_streams:
  assumes "well_formed_stream env content"
  shows "diff_manifests env content content max_lines = Inr (False, '''')"
proof -
  obtain docs where "parse_docs env (py_split content ''\<newline>---\<newline>'') = Inr docs"
    using well_formed_stream_parses [OF assms] by blast
  then show ?thesis
    by (simp add: diff_manifests_def diff_tables_def diff_loop_same)
qed

theorem diff_manifests_identical_streams_witness:
  "well_formed_stream demo_diff_env demo_baseline \<and>
   diff_manifests demo_diff_env demo_baseline demo_baseline 250 = Inr (False, '''')"
  using diff_manifests_identical_streams [OF demo_well_formed(1), of 250]
  by (simp add: demo_well_formed)

text \<open>
  The stream of the single document \<open>metadata: 5\<close> loads as a mapping whose \<open>metadata\<close>
  is the integer 5; \<open>_get_manifest_name\<close> calls \<open>metadata.get\<close> on it, which raises
  \<open>AttributeError\<close>, and \<open>parse_docs\<close> catches \<open>yaml.YAMLError\<close> only. Diffing this
  stream against itself raises instead of returning \<open>(False, "")\<close>.
\<close>

theorem diff_manifests_metadata_not_mapping:
  "diff_manifests demo_diff_env ''metadata: 5'' ''metadata: 5'' 250 = Inl AttributeError"
  by (simp add: diff_manifests_def py_split_def startswith_def parse_docs_def doc_entry_def
        py_strip_def py_rstrip_def py_isspace_def load_entry_def demo_diff_env_def demo_load_def
        get_manifest_name_def dict_get_def)

subsection \<open>Duplicate identities\<close>

text \<open>
  C10. When a stream holds two documents \<open>r1\<close> and, later, \<open>r2\<close> with the same identity
  key, the earlier one takes no part in the comparison: the diff of the stream, as the
  baseline or as the current side, against any other stream is the diff of the stream
  without \<open>r1\<close>, exceptions included; and when no document after \<open>r2\<close> has the key, the
  table \<open>parse_docs\<close> returns holds under the key the raw text and the value of \<open>r2\<close>. In
  the sample baseline the Service \<open>web\<close> comes first with port 81, then with port 80; the
  current stream has it with port 81, and the diff reports the change from 80 to 81.
\<close>

theorem diff_manifests_last_duplicate_wins:
  assumes "doc_entry env r1 = Inr (Some (k, v1))"
    and "doc_entry env r2 = Inr (Some (k, v2))"
    and "py_split content ''\<newline>---\<newline>'' = xs @ r1 # ys @ r2 # zs"
    and "py_split content' ''\<newline>---\<newline>'' = xs @ ys @ r2 # zs"
  shows "diff_manifests env content other m = diff_manifests env content' other m \<and>
         diff_manifests env other content m = diff_manifests env other content' m \<and>
         (\<forall>docs. parse_docs env (py_split content ''\<newline>---\<newline>'') = Inr docs \<longrightarrow>
                 (\<forall>z\<in>set zs. \<forall>v. doc_entry env z \<noteq> Inr (Some (k, v))) \<longrightarrow>
                 map_of docs k = Some v2)"
proof (intro conjI allI impI)
  have same: "same_tables (parse_docs env (py_split content ''\<newline>---\<newline>''))
          (parse_docs env (py_split content' ''\<newline>---\<newline>''))"
    unfolding assms(3,4) by (rule parse_docs_duplicate [OF assms(1,2)])
  show "diff_manifests env content other m = diff_manifests env content' other m"
    by (rule diff_manifests_cong [OF same same_tables_refl])
  show "diff_manifests env other content m = diff_manifests env other content' m"
    by (rule diff_manifests_cong [OF same_tables_refl same])
next
  fix docs
  assume parsed: "parse_docs env (py_split content ''\<newline>---\<newline>'') = Inr docs"
    and later: "\<forall>z\<in>set zs. \<forall>v. doc_entry env z \<noteq> Inr (Some (k, v))"
  have "parse_docs env ((xs @ r1 # ys) @ r2 # zs) = Inr docs"
    using parsed by (simp add: assms(3))
  then show "map_of docs k = Some v2"
    using assms(2) later by (rule parse_docs_last)
qed

theorem diff_manifests_last_duplicate_wins_witness:
  "diff_manifests demo_diff_env demo_baseline demo_current 250
     = Inr (True,
         ''--- REMOVED: Job/ops/init\<newline>'' @
         ''-{kind: Job, metadata: {name: init, namespace: ops}}\<newline>'' @
         ''\<newline>'' @
         ''--- baseline/Service/web\<newline>+++ current/Service/web\<newline>@@ -1 +1 @@\<newline>'' @
         ''-{kind: Service, metadata: {name: web}, port: 80}'' @
         ''+{kind: Service, metadata: {name: web}, port: 81}'') \<and>
   diff_manifests demo_diff_env demo_current demo_baseline 250
     = diff_manifests demo_diff_env demo_current demo_deduplicated 250 \<and>
   (\<exists>docs. parse_docs demo_diff_env (py_split demo_baseline ''\<newline>---\<newline>'') = Inr docs \<and>
      map_option fst (map_of docs ''Service/web'')
        = Some ''{kind: Service, metadata: {name: web}, port: 80}'')"
proof -
  obtain docs
    where docs: "parse_docs demo_diff_env (py_split demo_baseline ''\<newline>---\<newline>'') = Inr docs"
    using well_formed_stream_parses [OF demo_well_formed(1)] by blast
  have other: "doc_entry demo_diff_env
        ''{kind: Job, metadata: {name: init, namespace: ops}}\<newline>''
      \<noteq> Inr (Some (''Service/web'', v))" for v
    by (simp add: demo_entries)
  show ?thesis
    using diff_manifests_last_duplicate_wins [where env = demo_diff_env
        and ?r1.0 = "''{kind: Service, metadata: {name: web}, port: 81}''"
        and ?r2.0 = "''{kind: Service, metadata: {name: web}, port: 80}''"
        and k = "''Service/web''" and xs = "[]" and ys = "[]"
        and zs = "[''{kind: Job, metadata: {name: init, namespace: ops}}\<newline>'']"
        and content = demo_baseline and content' = demo_deduplicated
        and other = demo_current and m = 250, OF demo_entries(1) demo_entries(2)]
      docs other
    by (simp add: demo_baseline_split demo_deduplicated_split demo_diff_deduplicated)
qed

subsection \<open>The blocks of a diff\<close>

text \<open>
  C6. With the default cap of 250 lines, whatever \<open>_diff_manifests\<close> returns for two
  streams is: whether there is a block at all, and the blocks joined by a newline, where
  the blocks are those of \<open>diff_blocks\<close>: one for each identity of either stream, in
  ascending order of the identities, none for an identity whose raw text is the same on
  both sides. The block of an identity that only the current stream has is the line
  \<open>+++ NEW: identity\<close>, at most 250 lines of the document, and a note when it has more;
  the block of one that only the baseline has is the same under \<open>--- REMOVED: identity\<close>;
  the block of a changed one is the unified diff with 150 lines of context between
  \<open>baseline/identity\<close> and \<open>current/identity\<close>, cut after 250 lines with a note. No block
  has more than 252 lines. For two streams of well formed documents \<open>_diff_manifests\<close>
  does return.
\<close>

theorem diff_manifests_blocks:
  "(\<forall>result. diff_manifests env baseline_content new_content 250 = Inr result \<longrightarrow>
      result =
        (diff_blocks env 250 baseline_content new_content \<noteq> [],
         if diff_blocks env 250 baseline_content new_content = [] then []
         else concat (map (\<lambda>block. concat block @ ''\<newline>'')
                        (butlast (diff_blocks env 250 baseline_content new_content)))
                @ concat (last (diff_blocks env 250 baseline_content new_content))))
   \<and> (well_formed_stream env baseline_content \<longrightarrow> well_formed_stream env new_content \<longrightarrow>
        (\<exists>result. diff_manifests env baseline_content new_content 250 = Inr result))
   \<and> (\<forall>identity.
         length (resource_block env 250 (stream_table env baseline_content)
                   (stream_table env new_content) identity) \<le> 252)"
proof (intro conjI allI impI)
  fix result
  assume returned: "diff_manifests env baseline_content new_content 250 = Inr result"
  obtain baseline_docs new_docs
    where b: "parse_docs env (py_split baseline_content ''\<newline>---\<newline>'') = Inr baseline_docs"
      and n: "parse_docs env (py_split new_content ''\<newline>---\<newline>'') = Inr new_docs"
    using returned by (auto simp: diff_manifests_def split: sum.splits)
  show "result =
        (diff_blocks env 250 baseline_content new_content \<noteq> [],
         if diff_blocks env 250 baseline_content new_content = [] then []
         else concat (map (\<lambda>block. concat block @ ''\<newline>'')
                        (butlast (diff_blocks env 250 baseline_content new_content)))
                @ concat (last (diff_blocks env 250 baseline_content new_content)))"
    using diff_tables_blocks [OF b n, of 250] returned by (simp add: diff_manifests_def b n)
next
  assume "well_formed_stream env baseline_content" and "well_formed_stream env new_content"
  then obtain baseline_docs new_docs
    where b: "parse_docs env (py_split baseline_content ''\<newline>---\<newline>'') = Inr baseline_docs"
      and n: "parse_docs env (py_split new_content ''\<newline>---\<newline>'') = Inr new_docs"
    using well_formed_stream_parses by blast
  then show "\<exists>result. diff_manifests env baseline_content new_content 250 = Inr result"
    by (simp add: diff_manifests_def)
next
  fix identity
  show "length (resource_block env 250 (stream_table env baseline_content)
                  (stream_table env new_content) identity) \<le> 252"
    using resource_block_length [of env 250] by simp
qed

theorem diff_manifests_blocks_witness:
  "well_formed_stream demo_diff_env demo_current \<and>
   well_formed_stream demo_diff_env demo_deduplicated \<and>
   diff_manifests demo_diff_env demo_current demo_deduplicated 250
     = Inr (True,
         ''+++ NEW: Job/ops/init\<newline>'' @
         ''+{kind: Job, metadata: {name: init, namespace: ops}}\<newline>'' @
         ''\<newline>'' @
         ''--- baseline/Service/web\<newline>+++ current/Service/web\<newline>@@ -1 +1 @@\<newline>'' @
         ''-{kind: Service, metadata: {name: web}, port: 81}'' @
         ''+{kind: Service, metadata: {name: web}, port: 80}'')"
  using diff_manifests_blocks [of demo_diff_env demo_current demo_deduplicated]
  by (auto simp add: demo_well_formed demo_deduplicated_well_formed demo_blocks)

section \<open>Properties of template-variable resolution\<close>

subsection \<open>Helper lemmas\<close>

lemma match_literal_shorter:
  assumes "match_literal lit s = Some r"
  shows "length r \<le> length s"
  using assms by (auto simp: match_literal_def split: if_splits)

lemma match_literal_consumes:
  assumes "match_literal (c # lit) s = Some r"
  shows "length r < length s"
  using assms by (cases s) (auto simp: match_literal_def startswith_def split: if_splits)

lemma lazy_group_shorter:
  assumes "\<And>x r. close x = Some r \<Longrightarrow> length r \<le> length x"
    and "lazy_group close g s = Some (g', rest)"
  shows "length rest \<le> length s"
  using assms(2)
proof (induction s arbitrary: g)
  case Nil
  then show ?case using assms(1) [of "[]"] by (auto split: option.splits)
next
  case (Cons c s)
  show ?case
  proof (cases "close (c # s)")
    case None
    then have "lazy_group close (g @ [c]) s = Some (g', rest)"
      using Cons.prems by (auto split: if_splits)
    then have "length rest \<le> length s" by (rule Cons.IH)
    then show ?thesis by simp
  next
    case (Some r)
    then show ?thesis using Cons.prems assms(1) [of "c # s" r] by simp
  qed
qed

lemma dot_plus_lazy_consumes:
  assumes "\<And>x r. close x = Some r \<Longrightarrow> length r \<le> length x"
    and "dot_plus_lazy close s = Some (g, rest)"
  shows "length rest < length s"
proof (cases s)
  case Nil
  then show ?thesis using assms(2) by (simp add: dot_plus_lazy_def)
next
  case (Cons c cs)
  then have "lazy_group close [c] cs = Some (g, rest)"
    using assms(2) by (auto simp: dot_plus_lazy_def split: if_splits)
  then have "length rest \<le> length cs"
    using assms(1) by (rule lazy_group_shorter [rotated])
  then show ?thesis by (simp add: Cons)
qed

lemma match_escaped_close_shorter:
  assumes "match_escaped_close s = Some r"
  shows "length r \<le> length s"
proof -
  obtain s1 s2 where s1: "match_literal ''{{'' s = Some s1"
    and s2: "match_literal ''`}}`'' (skip_space s1) = Some s2"
    and r: "match_literal ''}}'' (skip_space s2) = Some r"
    using assms by (auto simp: match_escaped_close_def split: option.splits)
  have "length r \<le> length (skip_space s2)" using r by (rule match_literal_shorter)
  also have "\<dots> \<le> length s2" by (simp add: skip_space_def length_dropWhile_le)
  also have "\<dots> \<le> length (skip_space s1)" using s2 by (rule match_literal_shorter)
  also have "\<dots> \<le> length s1" by (simp add: skip_space_def length_dropWhile_le)
  also have "\<dots> \<le> length s" using s1 by (rule match_literal_shorter)
  finally show ?thesis .
qed

lemma match_escaped_open_shorter:
  assumes "match_escaped_open s = Some r"
  shows "length r \<le> length s"
proof -
  obtain s1 s2 where s1: "match_literal ''{{'' s = Some s1"
    and s2: "match_literal ''`{{`'' (skip_space s1) = Some s2"
    and r: "match_literal ''}}'' (skip_space s2) = Some r"
    using assms by (auto simp: match_escaped_open_def split: option.splits)
  have "length r \<le> length (skip_space s2)" using r by (rule match_literal_shorter)
  also have "\<dots> \<le> length s2" by (simp add: skip_space_def length_dropWhile_le)
  also have "\<dots> \<le> length (skip_space s1)" using s2 by (rule match_literal_shorter)
  also have "\<dots> \<le> length s1" by (simp add: skip_space_def length_dropWhile_le)
  also have "\<dots> \<le> length s" using s1 by (rule match_literal_shorter)
  finally show ?thesis .
qed

text \<open>
  A match of either pattern takes at least one character, so the scan of \<open>re_sub\<close> always
  goes on after the match.
\<close>

lemma match_variable_consumes:
  assumes "match_variable s = Some (g, rest)"
  shows "length rest < length s"
proof -
  obtain r where r: "match_literal ''{{'' s = Some r"
    and g: "dot_plus_lazy (match_literal ''}}'') r = Some (g, rest)"
    using assms by (auto simp: match_variable_def split: option.splits)
  have "length rest < length r"
    using g by (rule dot_plus_lazy_consumes [rotated]) (rule match_literal_shorter)
  also have "\<dots> \<le> length s" using r by (rule match_literal_shorter)
  finally show ?thesis .
qed

lemma match_escaped_consumes:
  assumes "match_escaped s = Some (g, rest)"
  shows "length rest < length s"
proof -
  obtain r where r: "match_escaped_open s = Some r"
    and g: "dot_plus_lazy match_escaped_close r = Some (g, rest)"
    using assms by (auto simp: match_escaped_def split: option.splits)
  have "length rest < length r"
    using g by (rule dot_plus_lazy_consumes [rotated]) (rule match_escaped_close_shorter)
  also have "\<dots> \<le> length s" using r by (rule match_escaped_open_shorter)
  finally show ?thesis .
qed

lemma re_sub_variable_step:
  assumes "match_variable (c # cs) = Some (g, rest)"
  shows "re_sub match_variable repl (c # cs)
           = repl g (take (length (c # cs) - length rest) (c # cs))
               @ re_sub match_variable repl rest"
  using assms match_variable_consumes [OF assms] by (simp add: re_sub.simps)

lemma re_sub_escaped_step:
  assumes "match_escaped (c # cs) = Some (g, rest)"
  shows "re_sub match_escaped repl (c # cs)
           = repl g (take (length (c # cs) - length rest) (c # cs))
               @ re_sub match_escaped repl rest"
  using assms match_escaped_consumes [OF assms] by (simp add: re_sub.simps)






















subsection \<open>Resolution of a template\<close>




end
